theory Spec2Isabelle
  imports Complex_Main "HOL-Library.Sublist" "HOL-Library.Multiset" "HOL-Library.Log_Nat"
begin

section \<open>JavaScript values used by the gateway\<close>

text \<open>
  The gateway is written in JavaScript. Numbers that hold counts are modelled as \<open>nat\<close>
  (they start at 0 and are only incremented or reset), times and configured durations as
  \<open>int\<close> (milliseconds, as \<open>Date.now()\<close> gives them), the percentage threshold as \<open>rat\<close>.
  An optional property of a configuration object is an \<open>option\<close>: \<open>None\<close> is \<open>undefined\<close>.
\<close>

text \<open>\<open>x || d\<close> on a number: \<open>undefined\<close> and \<open>0\<close> are falsy, so the default is taken.\<close>

definition js_or :: "'a::zero option \<Rightarrow> 'a \<Rightarrow> 'a" where
  "js_or x d = (case x of None \<Rightarrow> d | Some v \<Rightarrow> if v = 0 then d else v)"

text \<open>\<open>s.includes(p)\<close> on strings.\<close>

fun str_includes :: "string \<Rightarrow> string \<Rightarrow> bool" where
  "str_includes [] p = (p = [])"
| "str_includes (c # cs) p = (take (length p) (c # cs) = p \<or> str_includes cs p)"

text \<open>\<open>c.toLowerCase()\<close> on a letter of ASCII.\<close>

definition lower_char :: "char \<Rightarrow> char" where
  "lower_char c =
     (let n = (of_char c :: nat) in if 65 \<le> n \<and> n \<le> 90 then char_of (n + 32) else c)"

text \<open>\<open>s.split(c)\<close> for a one-character separator.\<close>

fun split_on :: "char \<Rightarrow> string \<Rightarrow> string list" where
  "split_on c [] = [[]]"
| "split_on c (x # xs) =
     (if x = c then [] # split_on c xs
      else (case split_on c xs of
              [] \<Rightarrow> [[x]]
            | w # ws \<Rightarrow> (x # w) # ws))"

text \<open>
  An argument of a constructor: absent (\<open>undefined\<close>, which takes the default parameter
  value), \<open>null\<close>, or an object.
\<close>

datatype 'a js_arg = Undefined | Null | Obj 'a

datatype js_error = TypeError

section \<open>The request, as the middlewares see it\<close>

text \<open>
  The \<open>rateLimit\<close> of an API key record, \<open>{ requests: 1000, window: '1h' }\<close>: the window
  is a number, a string, or something else (\<open>undefined\<close> included).
\<close>

datatype window_value = WinNumber int | WinString string | WinOther

record api_key_limit =
  rl_window :: window_value
  rl_requests :: "int option"

record api_key =
  ak_key :: string
  ak_rateLimit :: "api_key_limit option"

record principal =
  u_id :: string
  u_authMethod :: string
  u_apiKey :: "api_key option"

record request =
  req_method :: string
  req_path :: string
  req_headers :: "string \<rightharpoonup> string"
  req_query :: "(string \<times> string) list"
  req_user :: "principal option"
  req_requestId :: string

section \<open>Circuit breaker (src/circuit-breaker/circuitBreaker.js)\<close>

datatype cb_state = CLOSED | OPEN | HALF_OPEN

text \<open>The effective parameters of one circuit (\<open>circuit.config\<close>).\<close>

record cb_params =
  timeout :: int
  errorThreshold :: rat
  errorCount :: int
  resetTimeout :: int
  halfOpenRequests :: int

text \<open>The per-service overrides (\<open>config.services[name]\<close>) and the constructor's argument.\<close>

record cb_service_options =
  so_timeout :: "int option"
  so_errorThreshold :: "rat option"
  so_errorCount :: "int option"
  so_resetTimeout :: "int option"
  so_halfOpenRequests :: "int option"

record cb_options =
  o_enabled :: "bool option"
  o_timeout :: "int option"
  o_errorThreshold :: "rat option"
  o_errorCount :: "int option"
  o_resetTimeout :: "int option"
  o_halfOpenRequests :: "int option"
  o_monitoringWindow :: "int option"
  o_services :: "(string \<rightharpoonup> cb_service_options) option"

record cb_config =
  enabled :: bool
  defaults :: cb_params
  monitoringWindow :: int
  services :: "string \<rightharpoonup> cb_service_options"

record circuit =
  state :: cb_state
  failures :: nat
  successes :: nat
  lastFailureTime :: "int option"
  lastStateChange :: int
  halfOpenCount :: nat
  params :: cb_params

record state_change =
  sc_from :: cb_state
  sc_to :: cb_state
  sc_timestamp :: int

record cb_stats =
  totalRequests :: nat
  totalFailures :: nat
  totalSuccesses :: nat
  totalTimeouts :: nat
  stateChanges :: "state_change list"
  lastError :: "(string \<times> int) option"

text \<open>
  \<open>this.circuits\<close> and \<open>this.stats\<close> are two maps with the same keys: \<open>getCircuit\<close>
  sets both, \<open>reset\<close> deletes both, \<open>cleanup\<close> clears both. They are modelled as one map
  from the service name to the pair.
\<close>

record breaker =
  config :: cb_config
  circuits :: "string \<rightharpoonup> (circuit \<times> cb_stats)"

text \<open>
  The constructor. Every numeric option goes through \<open>||\<close>, so a value of 0 is replaced
  by the default like a missing one. The only way the constructor throws is the property
  access on a \<open>null\<close> argument.
\<close>

definition empty_options :: cb_options where
  "empty_options = \<lparr> o_enabled = None, o_timeout = None, o_errorThreshold = None,
     o_errorCount = None, o_resetTimeout = None, o_halfOpenRequests = None,
     o_monitoringWindow = None, o_services = None \<rparr>"

definition build_breaker :: "cb_options \<Rightarrow> breaker" where
  "build_breaker opts =
     \<lparr> config =
         \<lparr> enabled = (o_enabled opts \<noteq> Some False),
           defaults =
             \<lparr> timeout = js_or (o_timeout opts) 5000,
               errorThreshold = js_or (o_errorThreshold opts) 50,
               errorCount = js_or (o_errorCount opts) 5,
               resetTimeout = js_or (o_resetTimeout opts) 60000,
               halfOpenRequests = js_or (o_halfOpenRequests opts) 3 \<rparr>,
           monitoringWindow = js_or (o_monitoringWindow opts) 10000,
           services = (case o_services opts of None \<Rightarrow> Map.empty | Some m \<Rightarrow> m) \<rparr>,
       circuits = Map.empty \<rparr>"

definition CircuitBreaker_new :: "cb_options js_arg \<Rightarrow> js_error + breaker" where
  "CircuitBreaker_new arg =
     (case arg of
        Undefined \<Rightarrow> Inr (build_breaker empty_options)
      | Null \<Rightarrow> Inl TypeError
      | Obj opts \<Rightarrow> Inr (build_breaker opts))"

text \<open>\<open>getCircuit\<close>: the circuit of a service, created CLOSED on first use.\<close>

definition service_options :: "breaker \<Rightarrow> string \<Rightarrow> cb_service_options" where
  "service_options b name =
     (case services (config b) name of
        Some so \<Rightarrow> so
      | None \<Rightarrow> \<lparr> so_timeout = None, so_errorThreshold = None, so_errorCount = None,
                  so_resetTimeout = None, so_halfOpenRequests = None \<rparr>)"

definition new_circuit :: "int \<Rightarrow> breaker \<Rightarrow> string \<Rightarrow> circuit" where
  "new_circuit now b name =
     (let so = service_options b name; d = defaults (config b) in
      \<lparr> state = CLOSED, failures = 0, successes = 0, lastFailureTime = None,
        lastStateChange = now, halfOpenCount = 0,
        params =
          \<lparr> timeout = js_or (so_timeout so) (timeout d),
            errorThreshold = js_or (so_errorThreshold so) (errorThreshold d),
            errorCount = js_or (so_errorCount so) (errorCount d),
            resetTimeout = js_or (so_resetTimeout so) (resetTimeout d),
            halfOpenRequests = js_or (so_halfOpenRequests so) (halfOpenRequests d) \<rparr> \<rparr>)"

definition new_stats :: cb_stats where
  "new_stats = \<lparr> totalRequests = 0, totalFailures = 0, totalSuccesses = 0,
     totalTimeouts = 0, stateChanges = [], lastError = None \<rparr>"

definition getCircuit :: "int \<Rightarrow> string \<Rightarrow> breaker \<Rightarrow> (circuit \<times> cb_stats) \<times> breaker" where
  "getCircuit now name b =
     (case circuits b name of
        Some e \<Rightarrow> (e, b)
      | None \<Rightarrow>
          (let e = (new_circuit now b name, new_stats)
           in (e, b\<lparr>circuits := (circuits b)(name \<mapsto> e)\<rparr>)))"

definition put :: "string \<Rightarrow> circuit \<times> cb_stats \<Rightarrow> breaker \<Rightarrow> breaker" where
  "put name e b = b\<lparr>circuits := (circuits b)(name \<mapsto> e)\<rparr>"

text \<open>
  The three transitions. \<open>transitionToOpen\<close> assigns the state first and reads
  \<open>circuit.state\<close> for the log entry afterwards; the other two save the previous state in a
  local first.
\<close>

definition transitionToOpen :: "int \<Rightarrow> string \<Rightarrow> breaker \<Rightarrow> breaker" where
  "transitionToOpen now name b =
     (let ((c, s), b1) = getCircuit now name b;
          c1 = c\<lparr>state := OPEN\<rparr>;
          c2 = c1\<lparr>lastStateChange := now\<rparr>;
          c3 = c2\<lparr>halfOpenCount := 0\<rparr>;
          s1 = s\<lparr>stateChanges := stateChanges s @
                 [\<lparr>sc_from = state c3, sc_to = OPEN, sc_timestamp = now\<rparr>]\<rparr>
      in put name (c3, s1) b1)"

definition transitionToHalfOpen :: "int \<Rightarrow> string \<Rightarrow> breaker \<Rightarrow> breaker" where
  "transitionToHalfOpen now name b =
     (let ((c, s), b1) = getCircuit now name b;
          previousState = state c;
          c1 = c\<lparr>state := HALF_OPEN, lastStateChange := now, failures := 0,
                 successes := 0, halfOpenCount := 0\<rparr>;
          s1 = s\<lparr>stateChanges := stateChanges s @
                 [\<lparr>sc_from = previousState, sc_to = HALF_OPEN, sc_timestamp = now\<rparr>]\<rparr>
      in put name (c1, s1) b1)"

definition transitionToClosed :: "int \<Rightarrow> string \<Rightarrow> breaker \<Rightarrow> breaker" where
  "transitionToClosed now name b =
     (let ((c, s), b1) = getCircuit now name b;
          previousState = state c;
          c1 = c\<lparr>state := CLOSED, lastStateChange := now, failures := 0,
                 successes := 0, halfOpenCount := 0\<rparr>;
          s1 = s\<lparr>stateChanges := stateChanges s @
                 [\<lparr>sc_from = previousState, sc_to = CLOSED, sc_timestamp = now\<rparr>]\<rparr>
      in put name (c1, s1) b1)"

text \<open>
  \<open>recordSuccess\<close>. The test for CLOSED comes after the possible transition, and reads the
  state the transition has just written.
\<close>

definition recordSuccess :: "int \<Rightarrow> string \<Rightarrow> breaker \<Rightarrow> breaker" where
  "recordSuccess now name b =
     (let ((c, s), b1) = getCircuit now name b;
          c1 = c\<lparr>successes := successes c + 1\<rparr>;
          s1 = s\<lparr>totalSuccesses := totalSuccesses s + 1\<rparr>;
          b2 = put name (c1, s1) b1;
          b3 = (if state c1 = HALF_OPEN \<and> halfOpenRequests (params c1) \<le> int (successes c1)
                then transitionToClosed now name b2 else b2);
          ((c3, s3), b4) = getCircuit now name b3
      in if state c3 = CLOSED then put name (c3\<lparr>failures := 0\<rparr>, s3) b4 else b4)"

text \<open>
  The error rate is computed in floating point: \<open>(failures / (failures + successes)) * 100\<close>.
  A JavaScript number is an IEEE 754 double, and both the division and the multiplication
  give the double nearest to their exact result, a tie going to the even mantissa. A
  positive double is a pair of a mantissa \<open>m\<close> and an exponent \<open>e\<close>, of value
  \<open>m * 2 ^ e\<close> with \<open>m < 2 ^ 53\<close> and \<open>e \<ge> -1074\<close>. \<open>nearest_double p q\<close> is the double
  nearest to the fraction \<open>p / q\<close> of two integers, \<open>p \<ge> 0\<close> and \<open>q > 0\<close>: the exponent is
  the one that brings the fraction into \<open>2 ^ 52 \<dots> 2 ^ 53\<close> (found from the bit lengths of
  \<open>p\<close> and \<open>q\<close>), the mantissa is the scaled fraction rounded to an integer. The overflow
  to \<open>Infinity\<close> is left out: the rate is at most 100. The counters and 100 are integers
  below \<open>2 ^ 53\<close>, which a double holds exactly, and when the rate is computed \<open>failures\<close>
  has just been incremented, so the divisor is not 0.
\<close>

definition scaled :: "int \<Rightarrow> int \<Rightarrow> int \<Rightarrow> int \<times> int" where
  "scaled p q e = (if 0 \<le> e then (p, q * 2 ^ nat e) else (p * 2 ^ nat (- e), q))"

definition round_half_even :: "int \<Rightarrow> int \<Rightarrow> int" where
  "round_half_even P Q =
     (let m = P div Q; r = P mod Q in
      if 2 * r < Q then m
      else if Q < 2 * r then m + 1
      else if even m then m else m + 1)"

definition nearest_double :: "int \<Rightarrow> int \<Rightarrow> int \<times> int" where
  "nearest_double p q =
     (if p = 0 then (0, 0)
      else
        (let e0 = bitlen p - bitlen q - 53;
             (P0, Q0) = scaled p q e0;
             e1 = (if P0 < Q0 * 2 ^ 53 then e0 else e0 + 1);
             e = max e1 (- 1074);
             (P, Q) = scaled p q e
         in (round_half_even P Q, e)))"

definition double_value :: "int \<times> int \<Rightarrow> rat" where
  "double_value d = (case d of (m, e) \<Rightarrow> of_int m * 2 powi e)"

definition errorRate :: "nat \<Rightarrow> nat \<Rightarrow> rat" where
  "errorRate f s =
     (let (m1, e1) = nearest_double (int f) (int (f + s));
          (P, Q) = scaled (m1 * 100) 1 (- e1)
      in double_value (nearest_double P Q))"

definition recordFailure :: "int \<Rightarrow> string \<Rightarrow> string \<Rightarrow> breaker \<Rightarrow> breaker" where
  "recordFailure now name message b =
     (let ((c, s), b1) = getCircuit now name b;
          c1 = c\<lparr>failures := failures c + 1\<rparr>;
          s1 = s\<lparr>totalFailures := totalFailures s + 1, lastError := Some (message, now)\<rparr>;
          c2 = c1\<lparr>lastFailureTime := Some now\<rparr>;
          s2 = (if message \<noteq> [] \<and> str_includes message ''timeout''
                then s1\<lparr>totalTimeouts := totalTimeouts s1 + 1\<rparr> else s1);
          b2 = put name (c2, s2) b1
      in if state c2 = CLOSED then
           (if errorCount (params c2) \<le> int (failures c2) \<and>
               errorThreshold (params c2) \<le> errorRate (failures c2) (successes c2)
            then transitionToOpen now name b2 else b2)
         else if state c2 = HALF_OPEN then transitionToOpen now name b2
         else b2)"

text \<open>\<open>getServiceName\<close>: the second path segment after \<open>api\<close>, or the header.\<close>

definition getServiceName :: "request \<Rightarrow> string option" where
  "getServiceName req =
     (let pathSegments = filter (\<lambda>s. s \<noteq> []) (split_on CHR ''/'' (req_path req)) in
      case pathSegments of
        a # svc # _ \<Rightarrow>
          if a = ''api'' then Some svc
          else (case req_headers req ''x-service-name'' of
                  None \<Rightarrow> None
                | Some h \<Rightarrow> if h = [] then None else Some h)
      | _ \<Rightarrow>
          (case req_headers req ''x-service-name'' of
             None \<Rightarrow> None
           | Some h \<Rightarrow> if h = [] then None else Some h))"

text \<open>\<open>rejectRequest\<close>: the 503 reply; \<open>Math.ceil(x / 1000)\<close> on an integer \<open>x\<close>.\<close>

record cb_rejection =
  rj_status :: nat
  rj_error :: string
  rj_message :: string
  rj_retryAfter :: int
  rj_requestId :: string

definition ceil_div :: "int \<Rightarrow> int \<Rightarrow> int" where
  "ceil_div x d = - ((- x) div d)"

definition rejectRequest :: "int \<Rightarrow> request \<Rightarrow> string \<Rightarrow> breaker \<Rightarrow> cb_rejection \<times> breaker" where
  "rejectRequest now req name b =
     (let ((c, s), b1) = getCircuit now name b in
      (\<lparr> rj_status = 503, rj_error = ''Service Unavailable'',
         rj_message = ''Service '' @ name @ '' is currently unavailable'',
         rj_retryAfter = ceil_div (resetTimeout (params c) - (now - lastStateChange c)) 1000,
         rj_requestId = req_requestId req \<rparr>, b1))"

text \<open>
  The middleware either calls \<open>next()\<close>, with the circuit-breaker context it attached to the
  request (service name and start time) if any, or ends the request with the rejection.
\<close>

datatype cb_outcome = Next "(string \<times> int) option" | Rejected cb_rejection

definition middleware :: "int \<Rightarrow> request \<Rightarrow> breaker \<Rightarrow> cb_outcome \<times> breaker" where
  "middleware now req b =
     (if \<not> enabled (config b) then (Next None, b)
      else case getServiceName req of
        None \<Rightarrow> (Next None, b)
      | Some name \<Rightarrow>
          (let ((c, s), b1) = getCircuit now name b in
           if state c = OPEN then
             (if resetTimeout (params c) \<le> now - lastStateChange c
              then (Next (Some (name, now)), transitionToHalfOpen now name b1)
              else (let (r, b2) = rejectRequest now req name b1 in (Rejected r, b2)))
           else (Next (Some (name, now)), b1)))"

text \<open>
  \<open>execute\<close>. The wrapped call \<open>executeWithTimeout(fn, timeout)\<close> settles at time \<open>fin\<close>
  with \<open>outcome\<close>: \<open>Inr\<close> its result, or \<open>Inl\<close> the message of the error it rejects with
  (\<open>Circuit breaker timeout\<close> when the timer fires first). \<open>fallback\<close> is what
  \<open>await fallback()\<close> gives when a fallback was passed.
\<close>

datatype exec_error = CircuitBreakerError string string | Thrown string

definition refuse :: "string \<Rightarrow> string \<Rightarrow> (exec_error + 'a) option \<Rightarrow> exec_error + 'a" where
  "refuse message name fallback =
     (case fallback of
        Some r \<Rightarrow> r
      | None \<Rightarrow> Inl (CircuitBreakerError message name))"

definition run_call ::
  "int \<Rightarrow> string \<Rightarrow> string + 'a \<Rightarrow> (exec_error + 'a) option \<Rightarrow> breaker
     \<Rightarrow> (exec_error + 'a) \<times> breaker" where
  "run_call fin name outcome fallback b =
     (let ((c, s), b1) = getCircuit fin name b;
          b2 = put name (c, s\<lparr>totalRequests := totalRequests s + 1\<rparr>) b1
      in case outcome of
           Inr result \<Rightarrow> (Inr result, recordSuccess fin name b2)
         | Inl message \<Rightarrow>
             (case fallback of
                Some r \<Rightarrow> (r, recordFailure fin name message b2)
              | None \<Rightarrow> (Inl (Thrown message), recordFailure fin name message b2)))"

definition execute ::
  "int \<Rightarrow> int \<Rightarrow> string \<Rightarrow> string + 'a \<Rightarrow> (exec_error + 'a) option \<Rightarrow> breaker
     \<Rightarrow> (exec_error + 'a) \<times> breaker" where
  "execute now fin name outcome fallback b =
     (let ((c, s), b1) = getCircuit now name b in
      if state c = OPEN \<and> \<not> resetTimeout (params c) \<le> now - lastStateChange c
      then (refuse ''Circuit breaker is OPEN'' name fallback, b1)
      else
        (let b2 = (if state c = OPEN then transitionToHalfOpen now name b1 else b1);
             ((c2, s2), b3) = getCircuit now name b2
         in if state c2 = HALF_OPEN then
              (if halfOpenRequests (params c2) \<le> int (halfOpenCount c2)
               then (refuse ''Circuit breaker is HALF_OPEN - max requests reached'' name fallback, b3)
               else run_call fin name outcome fallback
                      (put name (c2\<lparr>halfOpenCount := halfOpenCount c2 + 1\<rparr>, s2) b3))
            else run_call fin name outcome fallback b3))"

section \<open>Rate limiter (the \<open>RateLimiter\<close> class, middleware/rateLimiter)\<close>

record window_limit =
  windowMs :: int
  maxRequests :: int

record rl_config =
  rl_enabled :: bool
  perUser :: window_limit
  perApiKey :: window_limit

text \<open>
  A quota bucket. \<open>windowStart\<close> and \<open>resetTime\<close> are \<open>NaN\<close> (here \<open>None\<close>) when the
  window length is 0: \<open>Math.floor(now / 0) * 0\<close>.
\<close>

record quota =
  requests :: nat
  windowStart :: "int option"
  resetTime :: "int option"
  limit :: int

record rate_limiter =
  rl_cfg :: rl_config
  quotas :: "string \<rightharpoonup> quota"

text \<open>
  \<open>parseTimeWindow\<close>. A number is returned as it is, a value that is not a string gives
  \<open>null\<close>. For a string the pattern is written \<open>/(\\d+)([smhd]?)/\<close> in a regular-expression
  literal, which asks for a backslash followed by letters \<open>d\<close>: without a match the result
  is \<open>null\<close>, and with one \<open>parseInt\<close> of the group, which starts with the backslash, is
  \<open>NaN\<close> and so is every product of the \<open>switch\<close>. \<open>null\<close> and \<open>NaN\<close> are both falsy and
  the only use of the result is \<open>|| default\<close>, so both are \<open>None\<close>.
\<close>

definition parseTimeWindow :: "window_value \<Rightarrow> int option" where
  "parseTimeWindow w =
     (case w of
        WinNumber n \<Rightarrow> Some n
      | WinString s \<Rightarrow> None
      | WinOther \<Rightarrow> None)"

text \<open>The key of the bucket; reading \<open>apiKey.key\<close> of a missing record throws.\<close>

definition quotaKey :: "principal \<Rightarrow> js_error + string" where
  "quotaKey u =
     (if u_authMethod u = ''apikey'' then
        (case u_apiKey u of
           None \<Rightarrow> Inl TypeError
         | Some k \<Rightarrow> Inr (''apikey:'' @ ak_key k))
      else Inr (''user:'' @ u_id u))"

definition quotaConfig :: "rl_config \<Rightarrow> principal \<Rightarrow> window_limit" where
  "quotaConfig cfg u =
     (case (if u_authMethod u = ''apikey'' then
              (case u_apiKey u of None \<Rightarrow> None | Some k \<Rightarrow> ak_rateLimit k)
            else None) of
        Some rl \<Rightarrow>
          \<lparr> windowMs = js_or (parseTimeWindow (rl_window rl)) (windowMs (perApiKey cfg)),
            maxRequests = js_or (rl_requests rl) (maxRequests (perApiKey cfg)) \<rparr>
      | None \<Rightarrow> perUser cfg)"

definition window_start :: "int \<Rightarrow> int \<Rightarrow> int option" where
  "window_start now w = (if w = 0 then None else Some ((now div w) * w))"

text \<open>\<open>a !== b\<close> on numbers: \<open>NaN\<close> differs from everything, itself included.\<close>

definition js_differs :: "int option \<Rightarrow> int option \<Rightarrow> bool" where
  "js_differs a b = (case (a, b) of (Some x, Some y) \<Rightarrow> x \<noteq> y | _ \<Rightarrow> True)"

record quota_info =
  qi_limit :: int
  qi_remaining :: int
  qi_reset :: "int option"
  qi_window :: int

record quota_result =
  qr_allowed :: bool
  qr_quota :: "quota_info option"
  qr_message :: "string option"

definition fresh_quota :: "int option \<Rightarrow> window_limit \<Rightarrow> quota" where
  "fresh_quota ws qc =
     \<lparr> requests = 0, windowStart = ws,
       resetTime = map_option (\<lambda>w. w + windowMs qc) ws,
       limit = maxRequests qc \<rparr>"

definition checkQuota ::
  "int \<Rightarrow> request \<Rightarrow> rate_limiter \<Rightarrow> js_error + (quota_result \<times> rate_limiter)" where
  "checkQuota now req rl =
     (case req_user req of
        None \<Rightarrow> Inr (\<lparr> qr_allowed = True, qr_quota = None, qr_message = None \<rparr>, rl)
      | Some u \<Rightarrow>
          (case quotaKey u of
             Inl e \<Rightarrow> Inl e
           | Inr key \<Rightarrow>
               (let qc = quotaConfig (rl_cfg rl) u;
                    ws = window_start now (windowMs qc);
                    q0 = (case quotas rl key of
                            None \<Rightarrow> fresh_quota ws qc
                          | Some q \<Rightarrow>
                              if js_differs (windowStart q) ws then fresh_quota ws qc else q);
                    q1 = q0\<lparr>requests := requests q0 + 1\<rparr>;
                    ok = (int (requests q1) \<le> limit q1)
                in Inr (\<lparr> qr_allowed = ok,
                          qr_quota = Some \<lparr> qi_limit = limit q1,
                                            qi_remaining = max 0 (limit q1 - int (requests q1)),
                                            qi_reset = resetTime q1,
                                            qi_window = windowMs qc \<rparr>,
                          qr_message = Some (if ok then ''Request allowed'' else ''Quota exceeded'') \<rparr>,
                        rl\<lparr>quotas := (quotas rl)(key \<mapsto> q1)\<rparr>))))"

text \<open>
  The middleware. The global limiter and the slow-down are the libraries
  \<open>express-rate-limit\<close> and \<open>express-slow-down\<close>, called with the response object. Each
  either calls back after setting headers on the response (\<open>Proceeds\<close>, with the headers it
  set: with its default options \<open>express-rate-limit\<close> sets \<open>X-RateLimit-Limit\<close>,
  \<open>X-RateLimit-Remaining\<close> and \<open>X-RateLimit-Reset\<close> of the global window), calls back
  with an error (\<open>Fails\<close>: the \<open>catch\<close> logs it and calls \<open>next()\<close>; what a failing
  library left on the response is not modelled), or answers the request itself through
  its handler and never calls back (\<open>Answers\<close>). The outcome gives the headers set on the
  response while the middleware ran, by the libraries and by the middleware, or the 429
  reply with the headers it goes out with.
\<close>

datatype ext_result = Proceeds "(string \<times> int option) list" | Fails | Answers

text \<open>\<open>res.setHeader\<close> replaces a header of the same name, whatever the case of its letters.\<close>

fun set_header :: "string \<Rightarrow> int option \<Rightarrow> (string \<times> int option) list \<Rightarrow> (string \<times> int option) list" where
  "set_header n v [] = [(n, v)]"
| "set_header n v ((m, w) # hs) =
     (if map lower_char m = map lower_char n then (n, v) # hs
      else (m, w) # set_header n v hs)"

definition set_headers ::
  "(string \<times> int option) list \<Rightarrow> (string \<times> int option) list \<Rightarrow> (string \<times> int option) list" where
  "set_headers new old = fold (\<lambda>(n, v). set_header n v) new old"

record rl_response =
  rs_status :: nat
  rs_headers :: "(string \<times> int option) list"
  rs_error :: string
  rs_message :: "string option"
  rs_quota :: "quota_info option"
  rs_requestId :: string

datatype rl_outcome =
  RL_Next "(string \<times> int option) list"
| RL_Respond rl_response
| RL_Answered

definition quota_headers :: "quota_info \<Rightarrow> (string \<times> int option) list" where
  "quota_headers q =
     [(''X-RateLimit-Limit'', Some (qi_limit q)),
      (''X-RateLimit-Remaining'', Some (qi_remaining q)),
      (''X-RateLimit-Reset'', qi_reset q)]"

text \<open>The headers the two libraries have set when both have called back.\<close>

definition ext_headers :: "ext_result \<Rightarrow> ext_result \<Rightarrow> (string \<times> int option) list" where
  "ext_headers globalLimiter slowDownLimiter =
     (case globalLimiter of
        Proceeds h1 \<Rightarrow>
          (case slowDownLimiter of
             Proceeds h2 \<Rightarrow> set_headers h2 h1
           | _ \<Rightarrow> h1)
      | _ \<Rightarrow> [])"

definition rateLimiter_middleware ::
  "ext_result \<Rightarrow> ext_result \<Rightarrow> int \<Rightarrow> request \<Rightarrow> rate_limiter \<Rightarrow> rl_outcome \<times> rate_limiter" where
  "rateLimiter_middleware globalLimiter slowDownLimiter now req rl =
     (if \<not> rl_enabled (rl_cfg rl) then (RL_Next [], rl)
      else case globalLimiter of
        Fails \<Rightarrow> (RL_Next [], rl)
      | Answers \<Rightarrow> (RL_Answered, rl)
      | Proceeds h1 \<Rightarrow>
          (case slowDownLimiter of
             Fails \<Rightarrow> (RL_Next h1, rl)
           | Answers \<Rightarrow> (RL_Answered, rl)
           | Proceeds h2 \<Rightarrow>
               (case checkQuota now req rl of
                  Inl e \<Rightarrow> (RL_Next (set_headers h2 h1), rl)
                | Inr (quotaResult, rl') \<Rightarrow>
                    if \<not> qr_allowed quotaResult then
                      (RL_Respond \<lparr> rs_status = 429, rs_headers = set_headers h2 h1,
                                    rs_error = ''Quota Exceeded'',
                                    rs_message = qr_message quotaResult,
                                    rs_quota = qr_quota quotaResult,
                                    rs_requestId = req_requestId req \<rparr>, rl')
                    else
                      (RL_Next (case qr_quota quotaResult of
                                  None \<Rightarrow> set_headers h2 h1
                                | Some q \<Rightarrow> set_headers (quota_headers q) (set_headers h2 h1)),
                       rl'))))"

text \<open>
  A run of \<open>checkQuota\<close> over the requests of a list, each with the time it arrives at,
  counting for a key the requests reported as allowed. A call that throws changes nothing.
\<close>

definition key_of :: "request \<Rightarrow> string option" where
  "key_of req =
     (case req_user req of
        None \<Rightarrow> None
      | Some u \<Rightarrow> (case quotaKey u of Inl e \<Rightarrow> None | Inr k \<Rightarrow> Some k))"

fun allowed_count :: "string \<Rightarrow> (int \<times> request) list \<Rightarrow> rate_limiter \<Rightarrow> nat" where
  "allowed_count k [] rl = 0"
| "allowed_count k ((now, req) # es) rl =
     (case checkQuota now req rl of
        Inl e \<Rightarrow> allowed_count k es rl
      | Inr (res, rl') \<Rightarrow>
          (if key_of req = Some k \<and> qr_allowed res then 1 else 0) + allowed_count k es rl')"

section \<open>Response cache (the \<open>CacheManager\<close> class, cache/cacheManager, and cache/cacheUtils.js)\<close>

text \<open>
  A string is the list of the bytes of its UTF-8 encoding. \<open>req_query\<close> lists the
  properties of \<open>req.query\<close> in the order in which \<open>Object.keys\<close> gives them (the order
  of the query string, for names that are not array indices); the values are strings.
\<close>

definition header_set :: "(string \<rightharpoonup> string) \<Rightarrow> string \<Rightarrow> bool" where
  "header_set hs h = (case hs h of None \<Rightarrow> False | Some v \<Rightarrow> v \<noteq> [])"

definition header_or_empty :: "(string \<rightharpoonup> string) \<Rightarrow> string \<Rightarrow> string" where
  "header_or_empty hs h = (case hs h of None \<Rightarrow> [] | Some v \<Rightarrow> v)"

definition startsWith :: "string \<Rightarrow> string \<Rightarrow> bool" where
  "startsWith s p = (take (length p) s = p)"

fun join :: "string \<Rightarrow> string list \<Rightarrow> string" where
  "join sep [] = []"
| "join sep [x] = x"
| "join sep (x # y # ys) = x @ sep @ join sep (y # ys)"

text \<open>
  \<open>new URLSearchParams(obj).toString()\<close>: the \<open>application/x-www-form-urlencoded\<close>
  serialisation. Letters, digits and \<open>* - . _\<close> stay, a space becomes \<open>+\<close>, every other
  byte becomes \<open>%XX\<close>.
\<close>

definition hex_digit :: "nat \<Rightarrow> char" where
  "hex_digit n = ''0123456789ABCDEF'' ! n"

definition form_unreserved :: "char \<Rightarrow> bool" where
  "form_unreserved c =
     (let n = (of_char c :: nat) in
      (48 \<le> n \<and> n \<le> 57) \<or> (65 \<le> n \<and> n \<le> 90) \<or> (97 \<le> n \<and> n \<le> 122)
      \<or> c \<in> set ''*-._'')"

definition form_encode_char :: "char \<Rightarrow> string" where
  "form_encode_char c =
     (if form_unreserved c then [c]
      else if c = CHR '' '' then ''+''
      else [CHR ''%'', hex_digit ((of_char c :: nat) div 16), hex_digit ((of_char c :: nat) mod 16)])"

definition form_encode :: "string \<Rightarrow> string" where
  "form_encode s = concat (map form_encode_char s)"

definition URLSearchParams_toString :: "(string \<times> string) list \<Rightarrow> string" where
  "URLSearchParams_toString q = join ''&'' (map (\<lambda>(k, v). form_encode k @ ''='' @ form_encode v) q)"

text \<open>\<open>Buffer.from(s).toString('base64')\<close>.\<close>

definition b64_digit :: "nat \<Rightarrow> char" where
  "b64_digit n = ''ABCDEFGHIJKLMNOPQRSTUVWXYZabcdefghijklmnopqrstuvwxyz0123456789+/'' ! n"

fun base64_bytes :: "nat list \<Rightarrow> string" where
  "base64_bytes (a # b # c # rest) =
     [b64_digit (a div 4), b64_digit ((a mod 4) * 16 + b div 16),
      b64_digit ((b mod 16) * 4 + c div 64), b64_digit (c mod 64)] @ base64_bytes rest"
| "base64_bytes [a, b] =
     [b64_digit (a div 4), b64_digit ((a mod 4) * 16 + b div 16),
      b64_digit ((b mod 16) * 4), CHR ''='']"
| "base64_bytes [a] = [b64_digit (a div 4), b64_digit ((a mod 4) * 16), CHR ''='', CHR ''='']"
| "base64_bytes [] = []"

definition base64 :: "string \<Rightarrow> string" where
  "base64 s = base64_bytes (map of_char s)"

record strategy =
  st_ttl :: "int option"
  st_invalidateOn :: "string list"

record cache_config =
  cache_enabled :: bool
  defaultTTL :: int
  keyPrefix :: string
  strategies :: "(string \<times> strategy) list"
  cacheableStatusCodes :: "nat list"
  cacheableMethods :: "string list"

record response =
  res_statusCode :: nat
  res_headers :: "string \<rightharpoonup> string"

record cache_data =
  cd_status :: nat
  cd_headers :: "(string \<times> string) list"
  cd_body :: string
  cd_timestamp :: int
  cd_path :: string
  cd_method :: string

record cache_stats =
  cs_hits :: nat
  cs_misses :: nat
  cs_sets :: nat
  cs_deletes :: nat
  cs_errors :: nat

text \<open>
  The two tiers: the external store (Redis), used while \<open>isConnected\<close>, whose entries
  expire on its side, and the in-process maps \<open>memoryCache\<close> and \<open>memoryTTL\<close>. Failures of
  the external store are not modelled.
\<close>

record cache_manager =
  cm_config :: cache_config
  isConnected :: bool
  redis :: "string \<rightharpoonup> cache_data"
  memoryCache :: "string \<rightharpoonup> cache_data"
  memoryTTL :: "string \<rightharpoonup> int"
  cacheStats :: cache_stats

definition isCacheable :: "cache_config \<Rightarrow> request \<Rightarrow> bool" where
  "isCacheable cfg req =
     (if req_method req \<notin> set (cacheableMethods cfg) then False
      else if list_ex (header_set (req_headers req)) [''authorization'', ''cookie'', ''x-api-key'']
      then False
      else True)"

definition generateCacheKey :: "cache_config \<Rightarrow> request \<Rightarrow> string" where
  "generateCacheKey cfg req =
     (let baseKey = req_method req @ '':'' @ req_path req;
          queryString = (if length (req_query req) > 0
                         then ''?'' @ URLSearchParams_toString (req_query req) else [])
      in keyPrefix cfg @ base64 (baseKey @ queryString))"

definition getCacheStrategy :: "cache_config \<Rightarrow> string \<Rightarrow> strategy option" where
  "getCacheStrategy cfg path =
     map_option snd (find (\<lambda>(pattern, st). startsWith path pattern) (strategies cfg))"

definition getResponseHeaders :: "response \<Rightarrow> (string \<times> string) list" where
  "getResponseHeaders res =
     concat (map (\<lambda>h. case res_headers res h of
                         None \<Rightarrow> []
                       | Some v \<Rightarrow> if v = [] then [] else [(h, v)])
       [''content-type'', ''content-length'', ''etag'', ''last-modified'', ''cache-control''])"

definition getFromMemory :: "int \<Rightarrow> string \<Rightarrow> cache_manager \<Rightarrow> cache_data option \<times> cache_manager" where
  "getFromMemory now key cm =
     (case memoryTTL cm key of
        Some ttl \<Rightarrow>
          if ttl \<noteq> 0 \<and> now > ttl
          then (None, cm\<lparr>memoryCache := (memoryCache cm)(key := None),
                          memoryTTL := (memoryTTL cm)(key := None)\<rparr>)
          else (memoryCache cm key, cm)
      | None \<Rightarrow> (memoryCache cm key, cm))"

definition cache_get :: "int \<Rightarrow> string \<Rightarrow> cache_manager \<Rightarrow> cache_data option \<times> cache_manager" where
  "cache_get now key cm =
     (if isConnected cm then (redis cm key, cm) else getFromMemory now key cm)"

definition setInMemory :: "int \<Rightarrow> string \<Rightarrow> cache_data \<Rightarrow> int \<Rightarrow> cache_manager \<Rightarrow> cache_manager" where
  "setInMemory now key v ttl cm =
     cm\<lparr>memoryCache := (memoryCache cm)(key \<mapsto> v),
        memoryTTL := (memoryTTL cm)(key \<mapsto> now + ttl * 1000)\<rparr>"

definition cache_set :: "int \<Rightarrow> string \<Rightarrow> cache_data \<Rightarrow> int option \<Rightarrow> cache_manager \<Rightarrow> cache_manager" where
  "cache_set now key v ttl cm =
     (let timeToLive = js_or ttl (defaultTTL (cm_config cm)) in
      if isConnected cm then cm\<lparr>redis := (redis cm)(key \<mapsto> v)\<rparr>
      else setInMemory now key v timeToLive cm)"

text \<open>\<open>cacheResponse\<close>: the only test is on the status code of the response.\<close>

definition cacheResponse ::
  "int \<Rightarrow> request \<Rightarrow> response \<Rightarrow> string \<Rightarrow> string \<Rightarrow> cache_manager \<Rightarrow> cache_manager" where
  "cacheResponse now req res body cacheKey cm =
     (if res_statusCode res \<notin> set (cacheableStatusCodes (cm_config cm)) then cm
      else
        (let ttl = js_or (case getCacheStrategy (cm_config cm) (req_path req) of
                            None \<Rightarrow> None
                          | Some st \<Rightarrow> st_ttl st) (defaultTTL (cm_config cm));
             cacheData = \<lparr> cd_status = res_statusCode res, cd_headers = getResponseHeaders res,
                           cd_body = body, cd_timestamp = now, cd_path = req_path req,
                           cd_method = req_method req \<rparr>;
             cm1 = cache_set now cacheKey cacheData (Some ttl) cm
         in cm1\<lparr>cacheStats := (cacheStats cm1)\<lparr>cs_sets := cs_sets (cacheStats cm1) + 1\<rparr>\<rparr>))"

text \<open>
  The middleware: it passes the request on untouched, serves it from the cache, or (on a
  miss) passes it on with \<open>res.send\<close> and \<open>res.json\<close> wrapped so that the response is
  handed to \<open>cacheResponse\<close> under the key computed here.
\<close>

datatype lookup = Pass | Served cache_data string | Wrapped string

definition cache_middleware :: "int \<Rightarrow> request \<Rightarrow> cache_manager \<Rightarrow> lookup \<times> cache_manager" where
  "cache_middleware now req cm =
     (if \<not> cache_enabled (cm_config cm) \<or> \<not> isCacheable (cm_config cm) req then (Pass, cm)
      else
        (let cacheKey = generateCacheKey (cm_config cm) req;
             (cachedResponse, cm1) = cache_get now cacheKey cm
         in case cachedResponse of
              Some d \<Rightarrow>
                (Served d cacheKey,
                 cm1\<lparr>cacheStats := (cacheStats cm1)\<lparr>cs_hits := cs_hits (cacheStats cm1) + 1\<rparr>\<rparr>)
            | None \<Rightarrow>
                (Wrapped cacheKey,
                 cm1\<lparr>cacheStats := (cacheStats cm1)\<lparr>cs_misses := cs_misses (cacheStats cm1) + 1\<rparr>\<rparr>)))"

text \<open>
  One request through the cache: the middleware at time \<open>now\<close>, then, unless it was
  served from the cache, the response \<open>res\<close> with \<open>body\<close> that the later stages send with
  \<open>res.send\<close> at time \<open>fin\<close>. (The wrapper of \<open>res.json\<close> makes the same call of
  \<open>cacheResponse\<close> on the serialised object before it hands over to Express.)
\<close>

definition respond ::
  "int \<Rightarrow> int \<Rightarrow> request \<Rightarrow> response \<Rightarrow> string \<Rightarrow> cache_manager \<Rightarrow> cache_manager" where
  "respond now fin req res body cm =
     (case cache_middleware now req cm of
        (Pass, cm1) \<Rightarrow> cm1
      | (Served d k, cm1) \<Rightarrow> cm1
      | (Wrapped cacheKey, cm1) \<Rightarrow> cacheResponse fin req res body cacheKey cm1)"

text \<open>What the active tier holds under a key.\<close>

definition stored :: "cache_manager \<Rightarrow> string \<Rightarrow> cache_data option" where
  "stored cm key = (if isConnected cm then redis cm key else memoryCache cm key)"

subsection \<open>\<open>CacheUtils\<close>\<close>

text \<open>
  \<open>CacheUtils.isResponseCacheable\<close>, on the headers of the response. The cache
  middleware does not call it.
\<close>

definition isResponseCacheable :: "(string \<rightharpoonup> string) \<Rightarrow> bool" where
  "isResponseCacheable headers =
     (let cacheControl = header_or_empty headers ''cache-control'' in
      if str_includes cacheControl ''no-cache'' \<or> str_includes cacheControl ''no-store''
         \<or> str_includes cacheControl ''private''
      then False
      else
        (let vary = map lower_char (header_or_empty headers ''vary'') in
         if list_ex (\<lambda>h. str_includes vary (map lower_char h))
              [''cookie'', ''authorization'', ''user-agent'']
         then False else True))"

section \<open>The assembled application (src/apiGateway.js)\<close>

text \<open>
  The constructor registers middlewares on the Express application, in the order of the
  calls in \<open>setupMiddleware\<close>, \<open>setupRoutes\<close> and \<open>setupErrorHandling\<close>. A stage is one
  registered function.
\<close>

datatype stage =
    Helmet | Cors | Compression | CookieParser | JsonBody | UrlencodedBody | RequestLogging
  | RateLimit | Security | RequestTransform
  | HealthRoute | RequireAdmin | MetricsRoute | AdminServicesRoute | AdminRoutesRoute
  | CacheAdminRoutes | SwaggerServe | SwaggerSetup | AuthRoutes
  | Authenticate | CacheLookup | CacheInvalidation | CircuitBreakerGate | RouterMiddleware
  | ResponseTransform
  | NotFound | ResponseLogging | ErrorHandler

text \<open>
  \<open>app.use(f)\<close>, \<open>app.use(path, f, ...)\<close> and \<open>app.get(path, f, ...)\<close>; a function of four
  arguments is an error handler, which Express calls only after an error.
\<close>

datatype mount = Use_all | Use_path string | Get_path string

record layer =
  l_mount :: mount
  l_handlers :: "stage list"
  l_error :: bool

record gateway_config =
  rateLimit_enabled :: bool
  documentation_enabled :: bool

definition use :: "stage \<Rightarrow> layer" where
  "use f = \<lparr> l_mount = Use_all, l_handlers = [f], l_error = False \<rparr>"

definition setupMiddleware :: "gateway_config \<Rightarrow> layer list" where
  "setupMiddleware cfg =
     [use Helmet, use Cors, use Compression, use CookieParser, use JsonBody,
      use UrlencodedBody, use RequestLogging]
     @ (if rateLimit_enabled cfg then [use RateLimit] else [])
     @ [use Security, use RequestTransform]"

definition setupRoutes :: "gateway_config \<Rightarrow> layer list" where
  "setupRoutes cfg =
     [\<lparr> l_mount = Get_path ''/health'', l_handlers = [HealthRoute], l_error = False \<rparr>,
      \<lparr> l_mount = Get_path ''/metrics'', l_handlers = [RequireAdmin, MetricsRoute],
        l_error = False \<rparr>,
      \<lparr> l_mount = Get_path ''/admin/services'', l_handlers = [RequireAdmin, AdminServicesRoute],
        l_error = False \<rparr>,
      \<lparr> l_mount = Get_path ''/admin/routes'', l_handlers = [RequireAdmin, AdminRoutesRoute],
        l_error = False \<rparr>,
      \<lparr> l_mount = Use_path ''/admin/cache'', l_handlers = [RequireAdmin, CacheAdminRoutes],
        l_error = False \<rparr>]
     @ (if documentation_enabled cfg
        then [\<lparr> l_mount = Use_path ''/docs'', l_handlers = [SwaggerServe, SwaggerSetup],
                l_error = False \<rparr>]
        else [])
     @ [\<lparr> l_mount = Use_path ''/auth'', l_handlers = [AuthRoutes], l_error = False \<rparr>,
        \<lparr> l_mount = Use_path ''/api'',
          l_handlers = [Authenticate, CacheLookup, CacheInvalidation, CircuitBreakerGate,
                        RouterMiddleware, ResponseTransform],
          l_error = False \<rparr>,
        \<lparr> l_mount = Use_path ''*'', l_handlers = [NotFound], l_error = False \<rparr>]"

definition setupErrorHandling :: "layer list" where
  "setupErrorHandling =
     [use ResponseLogging,
      \<lparr> l_mount = Use_all, l_handlers = [ErrorHandler], l_error = True \<rparr>]"

definition ApiGateway_layers :: "gateway_config \<Rightarrow> layer list" where
  "ApiGateway_layers cfg = setupMiddleware cfg @ setupRoutes cfg @ setupErrorHandling"

text \<open>
  What a stage does with a request: it calls \<open>next()\<close>, leaving the request as given here
  (\<open>Continue\<close>); it sends the response and does not call \<open>next\<close> (\<open>Finish\<close>); or it throws
  or calls \<open>next(err)\<close> (\<open>Raise\<close>, with the request as it left it). The behaviour of the
  stages is a parameter: most of them are libraries or modules with effects outside of
  this model.
\<close>

datatype step = Continue request | Finish | Raise request

fun run_handlers ::
  "(stage \<Rightarrow> request \<Rightarrow> step) \<Rightarrow> stage list \<Rightarrow> request \<Rightarrow> (stage \<times> request) list \<times> step" where
  "run_handlers beh [] req = ([], Continue req)"
| "run_handlers beh (h # hs) req =
     (case beh h req of
        Continue req' \<Rightarrow> (let (tr, r) = run_handlers beh hs req' in ((h, req) # tr, r))
      | Finish \<Rightarrow> ([(h, req)], Finish)
      | Raise req' \<Rightarrow> ([(h, req)], Raise req'))"

text \<open>
  Inside \<open>app.use(path, ...)\<close> the handlers see the path without the mount path; Express
  puts it back when the layer is left.
\<close>

definition enter :: "mount \<Rightarrow> request \<Rightarrow> request" where
  "enter mt req =
     (case mt of
        Use_path p \<Rightarrow>
          if p = ''*'' then req
          else req\<lparr>req_path := (let r = drop (length p) (req_path req)
                                in if r = [] then ''/'' else r)\<rparr>
      | _ \<Rightarrow> req)"

definition leave :: "mount \<Rightarrow> request \<Rightarrow> request \<Rightarrow> request" where
  "leave mt original req =
     (case mt of
        Use_path p \<Rightarrow> if p = ''*'' then req else req\<lparr>req_path := req_path original\<rparr>
      | _ \<Rightarrow> req)"

text \<open>
  The router of Express: the layers are tried in the order of registration; \<open>matches\<close>
  says whether a layer's mount accepts the request. The result is the trace, each stage
  that ran with the request it was given, and where the walk over the layers ended:
  \<open>None\<close> when a stage answered, else the error flag and the request at the end.
\<close>

fun dispatch ::
  "(stage \<Rightarrow> request \<Rightarrow> step) \<Rightarrow> (mount \<Rightarrow> request \<Rightarrow> bool) \<Rightarrow> layer list \<Rightarrow> bool \<Rightarrow> request
     \<Rightarrow> (stage \<times> request) list \<times> (bool \<times> request) option" where
  "dispatch beh matches [] err req = ([], Some (err, req))"
| "dispatch beh matches (l # ls) err req =
     (if l_error l \<noteq> err \<or> \<not> matches (l_mount l) req then dispatch beh matches ls err req
      else case run_handlers beh (l_handlers l) (enter (l_mount l) req) of
        (tr, Continue req') \<Rightarrow>
          (let (tr', k) = dispatch beh matches ls err (leave (l_mount l) req req')
           in (tr @ tr', k))
      | (tr, Finish) \<Rightarrow> (tr, None)
      | (tr, Raise req') \<Rightarrow>
          (let (tr', k) = dispatch beh matches ls True (leave (l_mount l) req req')
           in (tr @ tr', k)))"

definition handle ::
  "(stage \<Rightarrow> request \<Rightarrow> step) \<Rightarrow> (mount \<Rightarrow> request \<Rightarrow> bool) \<Rightarrow> gateway_config \<Rightarrow> request
     \<Rightarrow> (stage \<times> request) list" where
  "handle beh matches cfg req = fst (dispatch beh matches (ApiGateway_layers cfg) False req)"

text \<open>Path matching as Express does it for these mounts (exact letters, no trailing slash).\<close>

definition express_matches :: "mount \<Rightarrow> request \<Rightarrow> bool" where
  "express_matches mt req =
     (case mt of
        Use_all \<Rightarrow> True
      | Use_path p \<Rightarrow>
          p = ''*'' \<or> req_path req = p \<or> take (length p + 1) (req_path req) = p @ ''/''
      | Get_path p \<Rightarrow> req_method req = ''GET'' \<and> req_path req = p)"

text \<open>
  The stages of the request pipeline, in the order in which the code registers them, and
  in the order in which the specification lists them.
\<close>

definition code_order :: "stage list" where
  "code_order = [RateLimit, Security, RequestTransform, Authenticate, CacheLookup,
                 CircuitBreakerGate, RouterMiddleware]"

definition spec_order :: "stage list" where
  "spec_order = [Security, RateLimit, RequestTransform, Authenticate, CacheLookup,
                 CircuitBreakerGate, RouterMiddleware]"

definition pipeline_stage :: "stage \<Rightarrow> bool" where
  "pipeline_stage s = (s \<in> set code_order)"

definition stages_run ::
  "(stage \<Rightarrow> request \<Rightarrow> step) \<Rightarrow> (mount \<Rightarrow> request \<Rightarrow> bool) \<Rightarrow> gateway_config \<Rightarrow> request
     \<Rightarrow> stage list" where
  "stages_run beh matches cfg req = filter pipeline_stage (map fst (handle beh matches cfg req))"

text \<open>The stages registered ahead of the rate limiter.\<close>

definition early_stages :: "stage list" where
  "early_stages = [Helmet, Cors, Compression, CookieParser, JsonBody, UrlencodedBody,
                   RequestLogging]"

section \<open>Properties: statements about runs\<close>

definition same_window :: "rl_config \<Rightarrow> string \<Rightarrow> int \<Rightarrow> int \<Rightarrow> (int \<times> request) list \<Rightarrow> bool" where
  "same_window cfg k w L es =
     list_all (\<lambda>(now, req).
        case req_user req of
          None \<Rightarrow> True
        | Some u \<Rightarrow>
            quotaKey u \<noteq> Inr k \<or>
            (window_start now (windowMs (quotaConfig cfg u)) = Some w
             \<and> maxRequests (quotaConfig cfg u) = L)) es"

definition window_open :: "rate_limiter \<Rightarrow> string \<Rightarrow> int \<Rightarrow> int \<Rightarrow> bool" where
  "window_open rl k w L =
     (case quotas rl k of
        None \<Rightarrow> True
      | Some q \<Rightarrow> js_differs (windowStart q) (Some w) \<or> limit q = L)"

definition carries :: "rl_outcome \<Rightarrow> string \<times> int option \<Rightarrow> bool" where
  "carries out h =
     (case out of
        RL_Next hs \<Rightarrow> h \<in> set hs
      | RL_Respond r \<Rightarrow> h \<in> set (rs_headers r)
      | RL_Answered \<Rightarrow> False)"

definition keeps_user :: "(stage \<Rightarrow> request \<Rightarrow> step) \<Rightarrow> stage \<Rightarrow> bool" where
  "keeps_user beh s =
     (\<forall>r r'. beh s r = Continue r' \<or> beh s r = Raise r' \<longrightarrow> req_user r' = req_user r)"

section \<open>Sample inputs\<close>

definition sample_circuit :: "cb_state \<Rightarrow> nat \<Rightarrow> nat \<Rightarrow> circuit" where
  "sample_circuit st f k =
     \<lparr> state = st, failures = f, successes = k, lastFailureTime = None,
       lastStateChange = 1000, halfOpenCount = 0,
       params = defaults (config (build_breaker empty_options)) \<rparr>"

definition sample_breaker :: "cb_state \<Rightarrow> nat \<Rightarrow> nat \<Rightarrow> breaker" where
  "sample_breaker st f k =
     put ''users'' (sample_circuit st f k, new_stats) (build_breaker empty_options)"

definition users_request :: request where
  "users_request = \<lparr> req_method = ''GET'', req_path = ''/api/users/42'',
     req_headers = Map.empty, req_query = [], req_user = None, req_requestId = ''r1'' \<rparr>"

definition boundary_circuit :: circuit where
  "boundary_circuit =
     \<lparr> state = CLOSED, failures = 28, successes = 71, lastFailureTime = None,
       lastStateChange = 1000, halfOpenCount = 0,
       params = defaults (config (build_breaker (empty_options\<lparr>o_errorThreshold := Some 29\<rparr>))) \<rparr>"

definition boundary_breaker :: breaker where
  "boundary_breaker =
     put ''users'' (boundary_circuit, new_stats)
       (build_breaker (empty_options\<lparr>o_errorThreshold := Some 29\<rparr>))"

definition library_headers :: "(string \<times> int option) list" where
  "library_headers =
     [(''X-RateLimit-Limit'', Some 1000), (''X-RateLimit-Remaining'', Some 999),
      (''X-RateLimit-Reset'', Some 1900)]"

definition sample_limiter :: "int \<Rightarrow> (string \<rightharpoonup> quota) \<Rightarrow> rate_limiter" where
  "sample_limiter L qs =
     \<lparr> rl_cfg = \<lparr> rl_enabled = True,
                  perUser = \<lparr> windowMs = 60000, maxRequests = L \<rparr>,
                  perApiKey = \<lparr> windowMs = 900000, maxRequests = 2000 \<rparr> \<rparr>,
       quotas = qs \<rparr>"

definition user_request :: request where
  "user_request = users_request
     \<lparr> req_user := Some \<lparr> u_id = ''u1'', u_authMethod = ''jwt'', u_apiKey = None \<rparr> \<rparr>"

definition spent_quota :: quota where
  "spent_quota = \<lparr> requests = 1, windowStart = Some 60000, resetTime = Some 120000, limit = 1 \<rparr>"

definition sample_principal :: principal where
  "sample_principal = \<lparr> u_id = ''u1'', u_authMethod = ''jwt'', u_apiKey = None \<rparr>"

definition sample_beh :: "stage \<Rightarrow> request \<Rightarrow> step" where
  "sample_beh s r =
     (if s = Authenticate then Continue (r\<lparr>req_user := Some sample_principal\<rparr>)
      else if s = RouterMiddleware then Finish
      else Continue r)"

definition full_config :: gateway_config where
  "full_config = \<lparr> rateLimit_enabled = True, documentation_enabled = False \<rparr>"

definition default_cache_config :: cache_config where
  "default_cache_config =
     \<lparr> cache_enabled = True, defaultTTL = 300, keyPrefix = ''gateway:'',
       strategies = [(''/api/users'', \<lparr> st_ttl = Some 600, st_invalidateOn = [''POST'', ''PUT'', ''DELETE''] \<rparr>),
                     (''/api/products'', \<lparr> st_ttl = Some 1800, st_invalidateOn = [''POST'', ''PUT'', ''DELETE''] \<rparr>)],
       cacheableStatusCodes = [200, 201, 203, 300, 301, 302, 304],
       cacheableMethods = [''GET'', ''HEAD''] \<rparr>"

definition empty_cache :: cache_manager where
  "empty_cache =
     \<lparr> cm_config = default_cache_config, isConnected = False, redis = Map.empty,
       memoryCache = Map.empty, memoryTTL = Map.empty,
       cacheStats = \<lparr> cs_hits = 0, cs_misses = 0, cs_sets = 0, cs_deletes = 0, cs_errors = 0 \<rparr> \<rparr>"

definition list_request :: "(string \<times> string) list \<Rightarrow> request" where
  "list_request q = \<lparr> req_method = ''GET'', req_path = ''/api/users'',
     req_headers = [''accept'' \<mapsto> ''application/json''], req_query = q, req_user = None,
     req_requestId = ''r2'' \<rparr>"

definition no_store_response :: response where
  "no_store_response = \<lparr> res_statusCode = 200,
     res_headers = [''content-type'' \<mapsto> ''application/json'', ''cache-control'' \<mapsto> ''no-store''] \<rparr>"

section \<open>Properties of the circuit breaker\<close>

lemma getCircuit_present:
  "circuits b name = Some e \<Longrightarrow> getCircuit now name b = (e, b)"
  by (simp add: getCircuit_def)

lemma getCircuit_put:
  "getCircuit now name (put name e b) = (e, put name e b)"
  by (simp add: getCircuit_def put_def)

lemma circuits_put: "circuits (put name e b) name = Some e"
  by (simp add: put_def)

text \<open>
  Claim C9. \<open>transitionToOpen\<close> appends to the state-change log an entry whose \<open>from\<close>
  field is the new state \<open>OPEN\<close>, whatever state the circuit held before: the state is
  assigned before the entry is built from \<open>circuit.state\<close>.
\<close>

theorem transitionToOpen_logs_new_state:
  "\<exists>c' s'. circuits (transitionToOpen now name b) name = Some (c', s')
     \<and> state c' = OPEN
     \<and> stateChanges s' =
         stateChanges (snd (fst (getCircuit now name b)))
           @ [\<lparr>sc_from = OPEN, sc_to = OPEN, sc_timestamp = now\<rparr>]"
  by (cases "getCircuit now name b") (auto simp: transitionToOpen_def Let_def circuits_put)

lemma transitionToHalfOpen_state:
  "circuits b name = Some (c, s) \<Longrightarrow>
   circuits (transitionToHalfOpen now name b) name =
     Some (c\<lparr>state := HALF_OPEN, lastStateChange := now, failures := 0,
             successes := 0, halfOpenCount := 0\<rparr>,
           s\<lparr>stateChanges := stateChanges s @
                 [\<lparr>sc_from = state c, sc_to = HALF_OPEN, sc_timestamp = now\<rparr>]\<rparr>)"
  by (simp add: transitionToHalfOpen_def getCircuit_present circuits_put)

text \<open>
  Claim C2. For a circuit in state OPEN: a request for its service that arrives strictly
  before \<open>lastStateChange + resetTimeout\<close> is rejected (503 by the middleware, the
  fallback or a \<open>CircuitBreakerError\<close> by \<open>execute\<close>) and the breaker is left as it was,
  so the state remains OPEN; a request arriving at or after that time makes the state
  HALF_OPEN (the middleware lets it through; \<open>execute\<close> goes on as from the half-open
  circuit). The middleware part is for an enabled breaker and a request that names the
  service.
\<close>

theorem open_circuit_gate:
  assumes "circuits b name = Some (c, s)" and "state c = OPEN"
  shows "(now < lastStateChange c + resetTimeout (params c) \<longrightarrow>
            (enabled (config b) \<and> getServiceName req = Some name \<longrightarrow>
               (\<exists>r. middleware now req b = (Rejected r, b) \<and> rj_status r = 503))
          \<and> execute now fin name outcome fallback b =
               (refuse ''Circuit breaker is OPEN'' name fallback, b))
       \<and> (lastStateChange c + resetTimeout (params c) \<le> now \<longrightarrow>
            (enabled (config b) \<and> getServiceName req = Some name \<longrightarrow>
               middleware now req b = (Next (Some (name, now)), transitionToHalfOpen now name b))
          \<and> execute now fin name outcome fallback b =
               execute now fin name outcome fallback (transitionToHalfOpen now name b)
          \<and> (\<exists>c' s'. circuits (transitionToHalfOpen now name b) name = Some (c', s')
                \<and> state c' = HALF_OPEN))"
  using assms
  by (auto simp: middleware_def execute_def rejectRequest_def getCircuit_present
      transitionToHalfOpen_state Let_def)

lemma transitionToOpen_state:
  "circuits b name = Some (c, s) \<Longrightarrow>
   circuits (transitionToOpen now name b) name =
     Some (c\<lparr>state := OPEN, lastStateChange := now, halfOpenCount := 0\<rparr>,
           s\<lparr>stateChanges := stateChanges s @
                 [\<lparr>sc_from = OPEN, sc_to = OPEN, sc_timestamp = now\<rparr>]\<rparr>)"
  by (simp add: transitionToOpen_def getCircuit_present circuits_put)

subsection \<open>Accuracy of the error rate in double precision\<close>

text \<open>
  \<open>nearest_double p q\<close> is a double within half a unit in the last place of \<open>p / q\<close>,
  with its exponent chosen so that \<open>p / q\<close> scaled by it lies in \<open>[2\<^sup>5\<^sup>2, 2\<^sup>5\<^sup>3)\<close>. Hence the value
  the code compares with the threshold, \<open>(failures / (failures + successes)) * 100\<close>
  after its two roundings, differs from the exact percentage by at most a relative
  \<open>2\<^sup>-\<^sup>5\<^sup>1\<close>, whenever the counters are below \<open>2\<^sup>5\<^sup>3\<close> (where they are exact doubles).
\<close>

lemma scaled_value:
  assumes "0 < q" and "scaled p q e = (P, Q)"
  shows "0 < Q" and "(of_int P / of_int Q :: rat) = of_int p / of_int q * 2 powi (- e)"
  using assms
  by (auto simp: scaled_def power_int_def field_simps split: if_splits)

lemma round_half_even_close:
  assumes "0 < Q"
  shows "\<bar>(of_int (round_half_even P Q) :: rat) - of_int P / of_int Q\<bar> \<le> 1 / 2"
proof -
  define m where "m = P div Q"
  define r where "r = P mod Q"
  have P: "P = m * Q + r" by (simp add: m_def r_def)
  have r: "0 \<le> r" "r < Q" using assms by (simp_all add: r_def)
  have Q: "(0::rat) < of_int Q" using assms by simp
  have frac: "(of_int P / of_int Q :: rat) = of_int m + of_int r / of_int Q"
    using Q by (simp add: P field_simps)
  have lo: "(0::rat) \<le> of_int r / of_int Q" using r Q by simp
  have hi: "(of_int r / of_int Q :: rat) < 1" using r Q by simp
  consider "2 * r < Q" | "Q < 2 * r" | "2 * r = Q" by linarith
  then show ?thesis
  proof cases
    case 1
    then have "(2 * of_int r :: rat) < of_int Q" by (metis of_int_less_iff of_int_mult of_int_numeral)
    then have "(of_int r / of_int Q :: rat) \<le> 1 / 2" using Q by (simp add: field_simps)
    moreover have "round_half_even P Q = m" using 1 by (simp add: round_half_even_def m_def r_def)
    ultimately show ?thesis using lo by (simp add: frac)
  next
    case 2
    then have "(of_int Q :: rat) < 2 * of_int r" by (metis of_int_less_iff of_int_mult of_int_numeral)
    then have "(1 / 2 :: rat) \<le> of_int r / of_int Q" using Q by (simp add: field_simps)
    moreover have "round_half_even P Q = m + 1" using 2 by (simp add: round_half_even_def m_def r_def)
    ultimately show ?thesis using hi by (simp add: frac)
  next
    case 3
    then have "(2 * of_int r :: rat) = of_int Q" by (metis of_int_mult of_int_numeral)
    then have h: "(of_int r / of_int Q :: rat) = 1 / 2" using Q by (simp add: field_simps)
    have "round_half_even P Q = m \<or> round_half_even P Q = m + 1"
      using 3 by (simp add: round_half_even_def m_def r_def Let_def)
    then show ?thesis by (auto simp: frac h)
  qed
qed


lemma bitlen_pos_bounds:
  assumes "0 < x"
  shows "(2::rat) powi (bitlen x - 1) \<le> of_int x" and "(of_int x :: rat) < 2 powi bitlen x"
proof -
  from bitlen_bounds [OF assms]
  have a: "2 ^ nat (bitlen x - 1) \<le> x" and b: "x < 2 ^ nat (bitlen x)" by simp_all
  have pos: "1 \<le> bitlen x" using assms bitlen_eq_zero_iff [of x] bitlen_nonneg [of x] by linarith
  have "(of_int (2 ^ nat (bitlen x - 1)) :: rat) \<le> of_int x" using a by (simp only: of_int_le_iff)
  then show "(2::rat) powi (bitlen x - 1) \<le> of_int x" using pos by (simp add: power_int_def)
  have "(of_int x :: rat) < of_int (2 ^ nat (bitlen x))" using b by (simp only: of_int_less_iff)
  then show "(of_int x :: rat) < 2 powi bitlen x" using pos by (simp add: power_int_def)
qed

lemma nearest_double_close:
  assumes p: "0 < p" and q: "0 < q" and range: "bitlen q \<le> bitlen p + 1021"
    and nd: "nearest_double p q = (m, e)"
  shows "(2::rat) ^ 52 \<le> of_int p / of_int q * 2 powi (- e)"
    and "of_int p / of_int q * 2 powi (- e) < (2::rat) ^ 53"
    and "\<bar>of_int m * 2 powi e - of_int p / of_int q\<bar> \<le> (2::rat) powi e / 2"
proof -
  define x :: rat where "x = of_int p / of_int q"
  define e0 where "e0 = bitlen p - bitlen q - 53"
  obtain P0 Q0 where s0: "scaled p q e0 = (P0, Q0)" by (cases "scaled p q e0")
  define e1 where "e1 = (if P0 < Q0 * 2 ^ 53 then e0 else e0 + 1)"
  obtain P Q where s1: "scaled p q e1 = (P, Q)" by (cases "scaled p q e1")
  have xpos: "0 < x" using p q by (simp add: x_def)
  have e1_ge: "- 1074 \<le> e1" using range by (simp add: e1_def e0_def)
  have res: "m = round_half_even P Q" "e = e1"
    using nd p s0 s1 e1_ge
    by (simp_all add: nearest_double_def e0_def [symmetric] e1_def Let_def max_def
        split: if_splits)
  note v0 = scaled_value [OF q s0]
  note v1 = scaled_value [OF q s1]
  have qr: "(0::rat) < of_int q" using q by simp
  have lo: "(2::rat) powi (bitlen p - 1 - bitlen q) < x"
  proof -
    have "(2::rat) powi (bitlen p - 1 - bitlen q) = 2 powi (bitlen p - 1) / 2 powi bitlen q"
      by (simp add: power_int_diff)
    also have "\<dots> \<le> of_int p / 2 powi bitlen q"
      using bitlen_pos_bounds(1) [OF p] by (simp add: divide_right_mono)
    also have "\<dots> < of_int p / of_int q"
      using bitlen_pos_bounds(2) [OF q] p qr by (simp add: divide_strict_left_mono)
    finally show ?thesis by (simp add: x_def)
  qed
  have hi: "x < (2::rat) powi (bitlen p - (bitlen q - 1))"
  proof -
    have "x = of_int p / of_int q" by (simp add: x_def)
    also have "\<dots> < 2 powi bitlen p / of_int q"
      using bitlen_pos_bounds(2) [OF p] qr by (simp add: divide_strict_right_mono)
    also have "\<dots> \<le> 2 powi bitlen p / 2 powi (bitlen q - 1)"
      using bitlen_pos_bounds(1) [OF q] by (intro frac_le) simp_all
    also have "\<dots> = 2 powi (bitlen p - (bitlen q - 1))"
      by (simp add: power_int_diff)
    finally show ?thesis .
  qed
  have X0_lo: "(2::rat) ^ 52 < x * 2 powi (- e0)"
  proof -
    have "(2::rat) powi (bitlen p - 1 - bitlen q) * 2 powi (- e0) < x * 2 powi (- e0)"
      using lo by (simp add: mult_strict_right_mono)
    moreover have "(2::rat) powi (bitlen p - 1 - bitlen q) * 2 powi (- e0) = 2 powi 52"
      by (simp add: e0_def flip: power_int_add)
    ultimately show ?thesis by simp
  qed
  have X0_hi: "x * 2 powi (- e0) < (2::rat) ^ 54"
  proof -
    have "x * 2 powi (- e0) < (2::rat) powi (bitlen p - (bitlen q - 1)) * 2 powi (- e0)"
      using hi by (simp add: mult_strict_right_mono)
    moreover have "(2::rat) powi (bitlen p - (bitlen q - 1)) * 2 powi (- e0) = 2 powi 54"
      by (simp add: e0_def flip: power_int_add)
    ultimately show ?thesis by simp
  qed
  have test: "P0 < Q0 * 2 ^ 53 \<longleftrightarrow> x * 2 powi (- e0) < (2::rat) ^ 53"
  proof -
    have "P0 < Q0 * 2 ^ 53 \<longleftrightarrow> (of_int P0 :: rat) < of_int (Q0 * 2 ^ 53)"
      by (simp only: of_int_less_iff)
    also have "\<dots> \<longleftrightarrow> (of_int P0 / of_int Q0 :: rat) < 2 ^ 53"
      using v0(1) by (simp add: field_simps)
    finally show ?thesis using v0(2) by (simp add: x_def)
  qed
  have X1: "(2::rat) ^ 52 \<le> x * 2 powi (- e1) \<and> x * 2 powi (- e1) < (2::rat) ^ 53"
  proof (cases "P0 < Q0 * 2 ^ 53")
    case True
    then show ?thesis using test X0_lo by (simp add: e1_def)
  next
    case False
    then have ge: "(2::rat) ^ 53 \<le> x * 2 powi (- e0)" using test by simp
    have "- (e0 + 1) = - e0 - 1" by simp
    then have "(2::rat) powi (- (e0 + 1)) = 2 powi (- e0) / 2"
      using power_int_diff [of "2::rat" "- e0" 1] by (simp only: power_int_1_right) simp
    then have half: "x * 2 powi (- (e0 + 1)) = x * 2 powi (- e0) / (2::rat)"
      by simp
    have a: "(2::rat) ^ 52 \<le> x * 2 powi (- e0) / 2" using ge by simp
    have b: "x * 2 powi (- e0) / 2 < (2::rat) ^ 53" using X0_hi by simp
    have e1: "e1 = e0 + 1" using False by (simp add: e1_def)
    show ?thesis unfolding e1 half using a b by blast
  qed
  show "(2::rat) ^ 52 \<le> of_int p / of_int q * 2 powi (- e)"
    and "of_int p / of_int q * 2 powi (- e) < (2::rat) ^ 53"
    using X1 by (simp_all add: res x_def)
  have "\<bar>(of_int m :: rat) - of_int P / of_int Q\<bar> \<le> 1 / 2"
    unfolding res by (rule round_half_even_close [OF v1(1)])
  then have "\<bar>(of_int m :: rat) - x * 2 powi (- e1)\<bar> \<le> 1 / 2"
    using v1(2) by (simp add: x_def)
  then have le: "\<bar>(of_int m :: rat) - x * 2 powi (- e1)\<bar> * 2 powi e1 \<le> 1 / 2 * 2 powi e1"
    by (intro mult_right_mono) simp_all
  have "(of_int m - x * 2 powi (- e1)) * 2 powi e1 = of_int m * 2 powi e1 - x"
    by (simp add: left_diff_distrib power_int_minus)
  then have "\<bar>of_int m * 2 powi e1 - x\<bar> = \<bar>(of_int m :: rat) - x * 2 powi (- e1)\<bar> * \<bar>2 powi e1\<bar>"
    by (simp only: abs_mult [symmetric])
  also have "\<dots> = \<bar>(of_int m :: rat) - x * 2 powi (- e1)\<bar> * 2 powi e1"
    by simp
  also note le
  finally have "\<bar>of_int m * 2 powi e1 - x\<bar> \<le> (2::rat) powi e1 / 2"
    by simp
  then show "\<bar>of_int m * 2 powi e - of_int p / of_int q\<bar> \<le> (2::rat) powi e / 2"
    unfolding res(2) x_def .
qed


lemma pow2_exponent_le:
  assumes "(2::rat) ^ n \<le> 2 powi a"
  shows "int n \<le> a"
proof (rule ccontr)
  assume "\<not> int n \<le> a"
  then have "a + 1 \<le> int n" by simp
  then have "(2::rat) powi (a + 1) \<le> 2 powi (int n)" by (intro power_int_increasing) simp_all
  moreover have "(2::rat) powi a < 2 powi (a + 1)" by (intro power_int_strict_increasing) simp_all
  ultimately show False using assms by simp
qed

lemma pow2_exponent_less:
  assumes "(2::rat) powi a < 2 ^ n"
  shows "a < int n"
proof (rule ccontr)
  assume "\<not> a < int n"
  then have "int n \<le> a" by simp
  then have "(2::rat) powi (int n) \<le> 2 powi a" by (intro power_int_increasing) simp_all
  then show False using assms by simp
qed

lemma bitlen_le:
  assumes "0 < x" and "x < 2 ^ n"
  shows "bitlen x \<le> int n"
proof -
  have "(2::rat) powi (bitlen x - 1) \<le> of_int x" by (rule bitlen_pos_bounds(1) [OF assms(1)])
  also have "(of_int x :: rat) < of_int (2 ^ n)" using assms(2) by (simp only: of_int_less_iff)
  finally have "(2::rat) powi (bitlen x - 1) < 2 ^ n" by simp
  then have "bitlen x - 1 < int n" by (rule pow2_exponent_less)
  then show ?thesis by simp
qed

lemma errorRate_close:
  assumes f: "0 < f" and small: "f + s < 2 ^ 53"
  shows "\<bar>errorRate f s - of_nat f / of_nat (f + s) * 100\<bar>
           \<le> of_nat f / of_nat (f + s) * 100 / 2 ^ 51"
proof -
  define x :: rat where "x = of_nat f / of_nat (f + s)"
  have xq: "x = of_int (int f) / of_int (int (f + s))" by (simp add: x_def)
  have pf: "0 < int f" and qf: "0 < int (f + s)" using f by simp_all
  have xpos: "0 < x" using f by (simp add: x_def)
  have xle: "x \<le> 1" using f by (simp add: x_def)
  have "int (f + s) < 2 ^ 53" using small by (metis of_nat_less_iff of_nat_numeral of_nat_power)
  then have bq: "bitlen (int (f + s)) \<le> 53" using bitlen_le [OF qf, of 53] by simp
  have bp: "1 \<le> bitlen (int f)"
    using pf bitlen_eq_zero_iff [of "int f"] bitlen_nonneg [of "int f"] by linarith
  obtain m1 e1 where n1: "nearest_double (int f) (int (f + s)) = (m1, e1)"
    by (cases "nearest_double (int f) (int (f + s))")
  have r1: "bitlen (int (f + s)) \<le> bitlen (int f) + 1021" using bq bp by simp
  note c1 = nearest_double_close [OF pf qf r1 n1, folded xq]
  define d1 :: rat where "d1 = of_int m1 * 2 powi e1"
  have pe: "(0::rat) < 2 powi e1" by simp
  have inv: "(2::rat) powi (- e1) * 2 powi e1 = 1" by (simp add: power_int_minus)
  have ulp1: "(2::rat) powi e1 \<le> x / 2 ^ 52"
  proof -
    have "(2::rat) ^ 52 * 2 powi e1 \<le> x * 2 powi (- e1) * 2 powi e1"
      using c1(1) by (intro mult_right_mono) simp_all
    also have "\<dots> = x" using inv by (simp add: mult.assoc)
    finally show ?thesis by (simp add: field_simps)
  qed
  have err1: "\<bar>d1 - x\<bar> \<le> x / 2 ^ 53"
    using c1(3) ulp1 by (simp add: d1_def)
  have e1_le: "e1 \<le> - 52"
  proof -
    have "x * 2 powi (- e1) \<le> 2 powi (- e1)"
      using mult_right_mono [OF xle, of "2 powi (- e1)"] by simp
    with c1(1) have "(2::rat) ^ 52 \<le> 2 powi (- e1)" by (rule order_trans)
    then have "int 52 \<le> - e1" by (rule pow2_exponent_le)
    then show ?thesis by simp
  qed
  have e1_ge: "- 106 < e1"
  proof -
    have "(of_nat (f + s) :: rat) < 2 ^ 53" using small by (metis of_nat_less_iff of_nat_numeral of_nat_power)
    moreover have "(1::rat) \<le> of_nat f" using f by simp
    ultimately have lower: "1 / 2 ^ 53 < x" using f by (simp add: x_def field_simps)
    have t: "(0::rat) < 2 powi (- e1)" by simp
    have "1 / 2 ^ 53 * 2 powi (- e1) < x * 2 powi (- e1)"
      using lower t by (rule mult_strict_right_mono)
    also note c1(2)
    finally have "1 / 2 ^ 53 * 2 powi (- e1) < (2::rat) ^ 53" .
    then have "(2::rat) powi (- e1) < 2 ^ 106" by (simp add: field_simps)
    then have "- e1 < int 106" by (rule pow2_exponent_less)
    then show ?thesis by simp
  qed
  have d1pos: "0 < d1"
  proof -
    have "x / 2 ^ 53 < x" using xpos by (simp add: field_simps)
    with err1 show ?thesis by linarith
  qed
  then have m1pos: "0 < m1" using pe by (simp add: d1_def zero_less_mult_iff)
  obtain P Q where sc: "scaled (m1 * 100) 1 (- e1) = (P, Q)"
    by (cases "scaled (m1 * 100) 1 (- e1)")
  have PQ: "P = m1 * 100" "Q = 2 ^ nat (- e1)"
    using sc e1_le by (simp_all add: scaled_def)
  have Ppos: "0 < P" using m1pos PQ by simp
  have Qpos: "0 < Q" using PQ by simp
  have val: "(of_int P / of_int Q :: rat) = d1 * 100"
    using scaled_value(2) [OF _ sc] by (simp add: d1_def mult_ac)
  have "bitlen 1 = 1" by (subst compute_bitlen) simp
  then have "bitlen Q = 1 + int (nat (- e1))"
    using bitlen_pow2 [of 1 "nat (- e1)"] by (simp add: PQ)
  then have bQ: "bitlen Q \<le> 106" using e1_ge e1_le by simp
  have bP: "1 \<le> bitlen P"
    using Ppos bitlen_eq_zero_iff [of P] bitlen_nonneg [of P] by linarith
  have r2: "bitlen Q \<le> bitlen P + 1021" using bQ bP by simp
  obtain m2 e2 where n2: "nearest_double P Q = (m2, e2)" by (cases "nearest_double P Q")
  note c2 = nearest_double_close [OF Ppos Qpos r2 n2, unfolded val]
  have rate: "errorRate f s = of_int m2 * 2 powi e2"
    unfolding errorRate_def n1 Let_def prod.case sc n2 double_value_def ..
  have inv2: "(2::rat) powi (- e2) * 2 powi e2 = 1" by (simp add: power_int_minus)
  have ulp2: "(2::rat) powi e2 \<le> d1 * 100 / 2 ^ 52"
  proof -
    have "(2::rat) ^ 52 * 2 powi e2 \<le> d1 * 100 * 2 powi (- e2) * 2 powi e2"
      using c2(1) by (intro mult_right_mono) simp_all
    also have "\<dots> = d1 * 100" using inv2 by (simp add: mult.assoc)
    finally show ?thesis by (simp add: field_simps)
  qed
  have err2: "\<bar>errorRate f s - d1 * 100\<bar> \<le> d1 * 100 / 2 ^ 53"
    using c2(3) ulp2 by (simp add: rate)
  have d1_le: "d1 \<le> x + x / 2 ^ 53" using err1 by linarith
  define c :: rat where "c = x / 2 ^ 53"
  have cpos: "0 < c" using xpos by (simp add: c_def)
  have cx: "c \<le> x" using xpos by (simp add: c_def field_simps)
  have a1: "\<bar>d1 - x\<bar> \<le> c" using err1 by (simp only: c_def)
  have "d1 \<le> 2 * x" using d1_le cx unfolding c_def by linarith
  then have "d1 * 100 / 2 ^ 53 \<le> 2 * x * 100 / 2 ^ 53" by (intro divide_right_mono mult_right_mono) simp_all
  also have "\<dots> = 200 * c" by (simp add: c_def)
  finally have "d1 * 100 / 2 ^ 53 \<le> 200 * c" .
  with err2 have a2: "\<bar>errorRate f s - d1 * 100\<bar> \<le> 200 * c" by (rule order_trans)
  have "\<bar>errorRate f s - x * 100\<bar> \<le> 400 * c" using a1 a2 cpos by linarith
  also have "400 * c = x * 100 / 2 ^ 51" by (simp add: c_def)
  finally have "\<bar>errorRate f s - x * 100\<bar> \<le> x * 100 / 2 ^ 51" .
  then show ?thesis by (simp add: x_def)
qed

subsection \<open>Opening a CLOSED circuit\<close>

text \<open>
  Claim C3, amended. Recording a failure on a CLOSED circuit increments \<open>failures\<close> and
  then opens the circuit if and only if \<open>failures \<ge> errorCount\<close> and the value of
  \<open>(failures / (failures + successes)) * 100\<close> in double precision, the quotient and the
  product each rounded to the nearest double, is at least \<open>errorThreshold\<close>, on the
  counters as they are once the failure is counted; otherwise it stays CLOSED. Recording
  a success on a CLOSED circuit resets \<open>failures\<close> to 0.
\<close>

theorem closed_opens_iff:
  assumes "circuits b name = Some (c, s)" and "state c = CLOSED"
  shows "\<exists>c' s'. circuits (recordFailure now name message b) name = Some (c', s')
     \<and> failures c' = failures c + 1 \<and> successes c' = successes c
     \<and> (state c' = OPEN \<or> state c' = CLOSED)
     \<and> (state c' = OPEN \<longleftrightarrow>
           errorCount (params c) \<le> int (failures c')
           \<and> errorThreshold (params c) \<le> errorRate (failures c') (successes c'))
     \<and> (\<exists>c'' s''. circuits (recordSuccess now name b) name = Some (c'', s'')
           \<and> state c'' = CLOSED \<and> failures c'' = 0)"
  using assms
  by (auto simp: recordFailure_def recordSuccess_def getCircuit_present
      getCircuit_put circuits_put transitionToOpen_state Let_def)

lemma rate_29_of_100: "errorRate 29 71 = 8162774324609023 / 2 ^ 48"
  by code_simp

lemma boundary_breaker_circuit:
  "circuits boundary_breaker ''users'' = Some (boundary_circuit, new_stats)"
  by (simp add: boundary_breaker_def put_def)

lemma boundary_params:
  "params boundary_circuit =
     \<lparr> timeout = 5000, errorThreshold = 29, errorCount = 5, resetTimeout = 60000,
       halfOpenRequests = 3 \<rparr>"
  by (simp add: boundary_circuit_def build_breaker_def empty_options_def js_or_def)

text \<open>
  Claim C3, as stated, fails: with 71 successes and 28 failures counted, threshold 29 and
  error count 5, the next failure makes \<open>failures = 29 \<ge> 5\<close> and the exact value of
  \<open>(29 / (29 + 71)) * 100\<close> is 29, which reaches the threshold; the code computes
  28.999999999999996 and the circuit stays CLOSED.
\<close>

theorem exact_rate_at_threshold_stays_closed:
  "state boundary_circuit = CLOSED
   \<and> errorCount (params boundary_circuit) = 5
   \<and> errorThreshold (params boundary_circuit) = 29
   \<and> map_option (\<lambda>(c, s). (state c, failures c, successes c))
        (circuits (recordFailure 2000 ''users'' ''boom'' boundary_breaker) ''users'')
       = Some (CLOSED, 29, 71)
   \<and> errorCount (params boundary_circuit) \<le> 29
   \<and> errorThreshold (params boundary_circuit) \<le> (29 / (29 + 71)) * 100
   \<and> errorRate 29 71 = 8162774324609023 / 2 ^ 48
   \<and> errorRate 29 71 < errorThreshold (params boundary_circuit)"
proof -
  have st: "state boundary_circuit = CLOSED" "failures boundary_circuit = 28"
    "successes boundary_circuit = 71"
    by (simp_all add: boundary_circuit_def)
  have run: "map_option (\<lambda>(c, s). (state c, failures c, successes c))
        (circuits (recordFailure 2000 ''users'' ''boom'' boundary_breaker) ''users'')
       = Some (CLOSED, 29, 71)"
    by (simp add: recordFailure_def getCircuit_present [OF boundary_breaker_circuit]
        circuits_put st boundary_params rate_29_of_100)
  from st run show ?thesis
    by (simp add: boundary_params rate_29_of_100)
qed

text \<open>
  Claim C8, as stated, fails: the constructor does not reject the options with
  \<open>halfOpenRequests = 0\<close>; it builds the breaker, with 3 in place of the 0.
\<close>

theorem zero_half_open_accepted:
  "\<not> isl (CircuitBreaker_new (Obj (empty_options\<lparr>o_halfOpenRequests := Some 0\<rparr>)))
   \<and> map_sum id (\<lambda>b. halfOpenRequests (defaults (config b)))
        (CircuitBreaker_new (Obj (empty_options\<lparr>o_halfOpenRequests := Some 0\<rparr>))) = Inr 3"
  by (simp add: CircuitBreaker_new_def build_breaker_def empty_options_def js_or_def)

lemma js_or_nonzero: "d \<noteq> 0 \<Longrightarrow> js_or x d \<noteq> 0"
  by (simp add: js_or_def split: option.splits)

text \<open>
  Claim C8, amended. No options object is rejected: the constructor returns a breaker
  for every one. A \<open>halfOpenRequests\<close> of 0 is replaced by the default 3, and a
  per-service 0 by the breaker's value, so the value a circuit works with is never 0.
\<close>

theorem half_open_requests_never_zero:
  "\<exists>b. CircuitBreaker_new (Obj opts) = Inr b
     \<and> halfOpenRequests (defaults (config b)) \<noteq> 0
     \<and> halfOpenRequests (params (fst (fst (getCircuit now name b)))) \<noteq> 0"
  by (simp add: CircuitBreaker_new_def build_breaker_def getCircuit_def new_circuit_def
      js_or_nonzero Let_def)

lemma users_service: "getServiceName users_request = Some ''users''"
  by (simp add: getServiceName_def users_request_def)

lemma sample_breaker_circuit:
  "circuits (sample_breaker st f k) ''users'' = Some (sample_circuit st f k, new_stats)"
  by (simp add: sample_breaker_def put_def)

lemma sample_params:
  "params (sample_circuit st f k) =
     \<lparr> timeout = 5000, errorThreshold = 50, errorCount = 5, resetTimeout = 60000,
       halfOpenRequests = 3 \<rparr>"
  by (simp add: sample_circuit_def build_breaker_def empty_options_def js_or_def)

theorem open_circuit_gate_witness:
  "circuits (sample_breaker OPEN 5 0) ''users'' = Some (sample_circuit OPEN 5 0, new_stats)
   \<and> state (sample_circuit OPEN 5 0) = OPEN
   \<and> enabled (config (sample_breaker OPEN 5 0))
   \<and> getServiceName users_request = Some ''users''
   \<and> lastStateChange (sample_circuit OPEN 5 0) + resetTimeout (params (sample_circuit OPEN 5 0))
       = 61000
   \<and> (\<exists>r. middleware 60999 users_request (sample_breaker OPEN 5 0)
              = (Rejected r, sample_breaker OPEN 5 0) \<and> rj_status r = 503)
   \<and> execute 60999 61050 ''users'' (Inr () :: string + unit) None (sample_breaker OPEN 5 0)
       = (Inl (CircuitBreakerError ''Circuit breaker is OPEN'' ''users''), sample_breaker OPEN 5 0)
   \<and> middleware 61000 users_request (sample_breaker OPEN 5 0)
       = (Next (Some (''users'', 61000)),
          transitionToHalfOpen 61000 ''users'' (sample_breaker OPEN 5 0))
   \<and> (\<exists>c' s'. circuits (transitionToHalfOpen 61000 ''users'' (sample_breaker OPEN 5 0)) ''users''
                  = Some (c', s') \<and> state c' = HALF_OPEN)"
proof -
  have h1: "circuits (sample_breaker OPEN 5 0) ''users'' = Some (sample_circuit OPEN 5 0, new_stats)"
    by (rule sample_breaker_circuit)
  have h2: "state (sample_circuit OPEN 5 0) = OPEN"
    by (simp add: sample_circuit_def)
  have h3: "enabled (config (sample_breaker OPEN 5 0))"
    by (simp add: sample_breaker_def put_def build_breaker_def empty_options_def)
  have h4: "lastStateChange (sample_circuit OPEN 5 0)
              + resetTimeout (params (sample_circuit OPEN 5 0)) = 61000"
    by (simp add: sample_params) (simp add: sample_circuit_def)
  note before = open_circuit_gate [OF h1 h2, of 60999 users_request 61050 "Inr ()" None]
  note after = open_circuit_gate [OF h1 h2, of 61000 users_request 61050 "Inr ()" None]
  show ?thesis
    using before after h1 h2 h3 h4 users_service
    by (simp add: refuse_def)
qed

lemma rate_5_of_5: "errorRate 5 0 = 100"
  by code_simp

lemma rate_5_of_11: "errorRate 5 6 = 3198579280802909 / 2 ^ 46"
  by code_simp

theorem closed_opens_iff_witness:
  "circuits (sample_breaker CLOSED 4 0) ''users'' = Some (sample_circuit CLOSED 4 0, new_stats)
   \<and> state (sample_circuit CLOSED 4 0) = CLOSED
   \<and> (\<exists>c' s'. circuits (recordFailure 2000 ''users'' ''boom'' (sample_breaker CLOSED 4 0)) ''users''
                  = Some (c', s') \<and> failures c' = 5 \<and> successes c' = 0 \<and> state c' = OPEN)
   \<and> (\<exists>c' s'. circuits (recordFailure 2000 ''users'' ''boom'' (sample_breaker CLOSED 4 6)) ''users''
                  = Some (c', s') \<and> failures c' = 5 \<and> successes c' = 6 \<and> state c' = CLOSED)"
proof -
  have h1: "circuits (sample_breaker CLOSED 4 k) ''users'' = Some (sample_circuit CLOSED 4 k, new_stats)" for k
    by (rule sample_breaker_circuit)
  have h2: "state (sample_circuit CLOSED 4 k) = CLOSED" for k
    by (simp add: sample_circuit_def)
  have f: "failures (sample_circuit CLOSED 4 k) = 4" "successes (sample_circuit CLOSED 4 k) = k" for k
    by (simp_all add: sample_circuit_def)
  note a = closed_opens_iff [where now = 2000 and message = "''boom''", OF h1 [of 0] h2 [of 0]]
  note b = closed_opens_iff [where now = 2000 and message = "''boom''", OF h1 [of 6] h2 [of 6]]
  show ?thesis
    using a b h1 [of 0] h2 [of 0]
    by (auto simp: sample_params f rate_5_of_5 rate_5_of_11)
qed

section \<open>Properties of the rate limiter\<close>

lemma checkQuota_cfg:
  "checkQuota now req rl = Inr (res, rl') \<Longrightarrow> rl_cfg rl' = rl_cfg rl"
  by (auto simp: checkQuota_def Let_def split: option.splits sum.splits)

lemma checkQuota_other_key:
  "checkQuota now req rl = Inr (res, rl') \<Longrightarrow> key_of req \<noteq> Some k \<Longrightarrow> quotas rl' k = quotas rl k"
  by (auto simp: checkQuota_def key_of_def Let_def split: option.splits sum.splits)

lemma checkQuota_counted:
  assumes "req_user req = Some u" "quotaKey u = Inr k"
    and "window_start now (windowMs (quotaConfig (rl_cfg rl) u)) = Some w"
    and "quotas rl k = Some q" "windowStart q = Some w"
  shows "checkQuota now req rl =
           Inr (\<lparr> qr_allowed = (int (requests q) + 1 \<le> limit q),
                  qr_quota = Some \<lparr> qi_limit = limit q,
                     qi_remaining = max 0 (limit q - (int (requests q) + 1)),
                     qi_reset = resetTime q,
                     qi_window = windowMs (quotaConfig (rl_cfg rl) u) \<rparr>,
                  qr_message = Some (if int (requests q) + 1 \<le> limit q
                                     then ''Request allowed'' else ''Quota exceeded'') \<rparr>,
                rl\<lparr>quotas := (quotas rl)(k \<mapsto> q\<lparr>requests := requests q + 1\<rparr>)\<rparr>)"
  using assms by (simp add: checkQuota_def Let_def js_differs_def add.commute)

lemma checkQuota_fresh:
  assumes "req_user req = Some u" "quotaKey u = Inr k"
    and "window_start now (windowMs (quotaConfig (rl_cfg rl) u)) = Some w"
    and "quotas rl k = None \<or> (\<exists>q. quotas rl k = Some q \<and> js_differs (windowStart q) (Some w))"
  shows "\<exists>res q'. checkQuota now req rl = Inr (res, rl\<lparr>quotas := (quotas rl)(k \<mapsto> q')\<rparr>)
           \<and> qr_allowed res = (1 \<le> maxRequests (quotaConfig (rl_cfg rl) u))
           \<and> requests q' = 1 \<and> windowStart q' = Some w
           \<and> limit q' = maxRequests (quotaConfig (rl_cfg rl) u)"
  using assms by (auto simp: checkQuota_def Let_def fresh_quota_def)

lemma allowed_in_window:
  assumes "same_window (rl_cfg rl) k w L es"
    and "quotas rl k = Some q" "windowStart q = Some w" "limit q = L"
  shows "allowed_count k es rl \<le> nat (L - int (requests q))"
  using assms
proof (induction es arbitrary: rl q)
  case Nil
  then show ?case by simp
next
  case (Cons e es)
  obtain now req where e: "e = (now, req)" by (cases e)
  from Cons.prems(1) have rest: "same_window (rl_cfg rl) k w L es"
    by (simp add: same_window_def)
  show ?case
  proof (cases "checkQuota now req rl")
    case (Inl err)
    with Cons.IH [OF rest Cons.prems(2-4)] e show ?thesis by simp
  next
    case (Inr p)
    obtain res rl' where p: "p = (res, rl')" by (cases p)
    have cfg: "rl_cfg rl' = rl_cfg rl" using Inr p by (simp add: checkQuota_cfg)
    show ?thesis
    proof (cases "key_of req = Some k")
      case False
      then have "quotas rl' k = Some q" using Inr p Cons.prems(2) by (simp add: checkQuota_other_key)
      from Cons.IH [OF _ this Cons.prems(3,4)] rest cfg
      have "allowed_count k es rl' \<le> nat (L - int (requests q))" by simp
      with False Inr p e show ?thesis by simp
    next
      case True
      then obtain u where u: "req_user req = Some u" "quotaKey u = Inr k"
        by (auto simp: key_of_def split: option.splits sum.splits)
      with Cons.prems(1) e
      have w: "window_start now (windowMs (quotaConfig (rl_cfg rl) u)) = Some w"
        by (simp add: same_window_def)
      note step = checkQuota_counted [OF u w Cons.prems(2,3)]
      let ?q' = "q\<lparr>requests := requests q + 1\<rparr>"
      have rl': "rl' = rl\<lparr>quotas := (quotas rl)(k \<mapsto> ?q')\<rparr>"
        and res: "qr_allowed res = (int (requests q) + 1 \<le> limit q)"
        using step Inr p by simp_all
      have "allowed_count k es rl' \<le> nat (L - int (requests ?q'))"
        using Cons.IH [of rl' ?q'] rest cfg rl' Cons.prems(3,4) by simp
      with True Inr p e res Cons.prems(4) show ?thesis by auto
    qed
  qed
qed

text \<open>
  Claim C4. Take a quota key, a window start \<open>w\<close> and a limit \<open>L\<close>, and any sequence of
  calls of \<open>checkQuota\<close> in which every request of that key computes the window start
  \<open>w = floor(now / windowMs) * windowMs\<close> and is configured with the limit \<open>L\<close>. Starting
  with no bucket for the key, a bucket of another window (re-initialised at the first
  touch) or a bucket of limit \<open>L\<close>, the number of these requests reported as allowed is at
  most \<open>L\<close> (none when \<open>L\<close> is negative). Requests of other keys may come in between.
\<close>

theorem quota_conservation:
  assumes "same_window (rl_cfg rl) k w L es" and "window_open rl k w L"
  shows "int (allowed_count k es rl) \<le> max 0 L"
  using assms
proof (induction es arbitrary: rl)
  case Nil
  then show ?case by simp
next
  case (Cons e es)
  obtain now req where e: "e = (now, req)" by (cases e)
  from Cons.prems(1) have rest: "same_window (rl_cfg rl) k w L es"
    by (simp add: same_window_def)
  show ?case
  proof (cases "checkQuota now req rl")
    case (Inl err)
    with Cons.IH [OF rest Cons.prems(2)] e show ?thesis by simp
  next
    case (Inr p)
    obtain res rl' where p: "p = (res, rl')" by (cases p)
    have cfg: "rl_cfg rl' = rl_cfg rl" using Inr p by (simp add: checkQuota_cfg)
    show ?thesis
    proof (cases "key_of req = Some k")
      case False
      then have "quotas rl' k = quotas rl k" using Inr p by (simp add: checkQuota_other_key)
      then have "window_open rl' k w L" using Cons.prems(2) by (simp add: window_open_def)
      from Cons.IH [OF _ this] rest cfg
      have "int (allowed_count k es rl') \<le> max 0 L" by simp
      with False Inr p e show ?thesis by simp
    next
      case True
      then obtain u where u: "req_user req = Some u" "quotaKey u = Inr k"
        by (auto simp: key_of_def split: option.splits sum.splits)
      with Cons.prems(1) e
      have w: "window_start now (windowMs (quotaConfig (rl_cfg rl) u)) = Some w"
        and L: "maxRequests (quotaConfig (rl_cfg rl) u) = L"
        by (simp_all add: same_window_def)
      show ?thesis
      proof (cases "\<exists>q. quotas rl k = Some q \<and> windowStart q = Some w")
        case True
        then obtain q where q: "quotas rl k = Some q" "windowStart q = Some w" by blast
        with Cons.prems(2) have lq: "limit q = L"
          by (simp add: window_open_def js_differs_def)
        have "allowed_count k (e # es) rl \<le> nat (L - int (requests q))"
          by (rule allowed_in_window [OF Cons.prems(1) q lq])
        then show ?thesis by linarith
      next
        case False
        then have "quotas rl k = None \<or> (\<exists>q. quotas rl k = Some q \<and> js_differs (windowStart q) (Some w))"
          by (cases "quotas rl k") (auto simp: js_differs_def split: option.splits)
        from checkQuota_fresh [OF u w this] Inr p L
        obtain q' where q': "rl' = rl\<lparr>quotas := (quotas rl)(k \<mapsto> q')\<rparr>"
          "qr_allowed res = (1 \<le> L)" "requests q' = 1" "windowStart q' = Some w" "limit q' = L"
          by auto
        have "quotas rl' k = Some q'" using q' by simp
        from allowed_in_window [OF _ this q'(4,5)] rest cfg q'(3)
        have "allowed_count k es rl' \<le> nat (L - 1)" by simp
        with True Inr p e q'(2) show ?thesis by auto
      qed
    qed
  qed
qed

lemmas quota_eval =
  checkQuota_def user_request_def users_request_def quotaKey_def quotaConfig_def
  sample_limiter_def window_start_def fresh_quota_def js_differs_def key_of_def Let_def

lemma sample_limiter_enabled: "rl_enabled (rl_cfg (sample_limiter L qs))"
  by (simp add: sample_limiter_def)

lemma user_request_id: "req_requestId user_request = ''r1''"
  by (simp add: user_request_def users_request_def)

theorem quota_conservation_witness:
  "same_window (rl_cfg (sample_limiter 2 Map.empty)) ''user:u1'' 60000 2
     [(60001, user_request), (60002, user_request), (119999, user_request)]
   \<and> window_open (sample_limiter 2 Map.empty) ''user:u1'' 60000 2
   \<and> allowed_count ''user:u1''
        [(60001, user_request), (60002, user_request), (119999, user_request)]
        (sample_limiter 2 Map.empty) = 2"
proof -
  let ?es = "[(60001, user_request), (60002, user_request), (119999, user_request)]"
  have h1: "same_window (rl_cfg (sample_limiter 2 Map.empty)) ''user:u1'' 60000 2 ?es"
    by (simp add: same_window_def user_request_def quotaKey_def quotaConfig_def
        sample_limiter_def window_start_def)
  have h2: "window_open (sample_limiter 2 Map.empty) ''user:u1'' 60000 2"
    by (simp add: window_open_def sample_limiter_def)
  have le: "int (allowed_count ''user:u1'' ?es (sample_limiter 2 Map.empty)) \<le> max 0 2"
    by (rule quota_conservation [OF h1 h2])
  have ge: "2 \<le> allowed_count ''user:u1'' ?es (sample_limiter 2 Map.empty)"
    by (simp add: quota_eval)
  from h1 h2 le ge show ?thesis by simp
qed

lemma set_headers_none: "set_headers [] hs = hs"
  by (simp add: set_headers_def)

lemma quota_over_library:
  "set_headers (quota_headers q) library_headers = quota_headers q"
  by (simp add: set_headers_def quota_headers_def library_headers_def lower_char_def)

text \<open>
  Claim C7, as stated, fails: the 429 reply to a request over its quota goes out with the
  headers the global limiter had set, those of the global window (limit 1000, remaining
  999), and not with the headers that are added on allow, which are those of the quota
  (limit 1, remaining 0).
\<close>

theorem quota_deny_keeps_global_headers:
  "fst (rateLimiter_middleware (Proceeds library_headers) (Proceeds []) 60002 user_request
          (sample_limiter 1 [''user:u1'' \<mapsto> spent_quota]))
     = RL_Respond \<lparr> rs_status = 429,
         rs_headers = [(''X-RateLimit-Limit'', Some 1000), (''X-RateLimit-Remaining'', Some 999),
                       (''X-RateLimit-Reset'', Some 1900)],
         rs_error = ''Quota Exceeded'', rs_message = Some ''Quota exceeded'',
         rs_quota = Some \<lparr> qi_limit = 1, qi_remaining = 0, qi_reset = Some 120000,
                             qi_window = 60000 \<rparr>,
         rs_requestId = ''r1'' \<rparr>
   \<and> fst (rateLimiter_middleware (Proceeds library_headers) (Proceeds []) 60002 user_request
            (sample_limiter 1 Map.empty))
       = RL_Next [(''X-RateLimit-Limit'', Some 1), (''X-RateLimit-Remaining'', Some 0),
                  (''X-RateLimit-Reset'', Some 120000)]
   \<and> \<not> carries (fst (rateLimiter_middleware (Proceeds library_headers) (Proceeds []) 60002
                        user_request (sample_limiter 1 [''user:u1'' \<mapsto> spent_quota])))
          (''X-RateLimit-Limit'', Some 1)
   \<and> \<not> carries (fst (rateLimiter_middleware (Proceeds library_headers) (Proceeds []) 60002
                        user_request (sample_limiter 1 [''user:u1'' \<mapsto> spent_quota])))
          (''X-RateLimit-Remaining'', Some 0)
   \<and> carries (fst (rateLimiter_middleware (Proceeds library_headers) (Proceeds []) 60002
                      user_request (sample_limiter 1 Map.empty)))
        (''X-RateLimit-Limit'', Some 1)"
proof -
  have lib: "library_headers =
      [(''X-RateLimit-Limit'', Some 1000), (''X-RateLimit-Remaining'', Some 999),
       (''X-RateLimit-Reset'', Some 1900)]"
    by (simp add: library_headers_def)
  obtain l1 where deny:
    "checkQuota 60002 user_request (sample_limiter 1 [''user:u1'' \<mapsto> spent_quota])
      = Inr (\<lparr> qr_allowed = False,
                qr_quota = Some \<lparr> qi_limit = 1, qi_remaining = 0, qi_reset = Some 120000,
                                  qi_window = 60000 \<rparr>,
                qr_message = Some ''Quota exceeded'' \<rparr>, l1)"
    by (simp add: quota_eval spent_quota_def)
  obtain l2 where allow:
    "checkQuota 60002 user_request (sample_limiter 1 Map.empty)
      = Inr (\<lparr> qr_allowed = True,
                qr_quota = Some \<lparr> qi_limit = 1, qi_remaining = 0, qi_reset = Some 120000,
                                  qi_window = 60000 \<rparr>,
                qr_message = Some ''Request allowed'' \<rparr>, l2)"
    by (simp add: quota_eval)
  have over: "set_headers (quota_headers \<lparr> qi_limit = 1, qi_remaining = 0, qi_reset = Some 120000,
                                          qi_window = 60000 \<rparr>) library_headers
      = [(''X-RateLimit-Limit'', Some 1), (''X-RateLimit-Remaining'', Some 0),
         (''X-RateLimit-Reset'', Some 120000)]"
    by (simp add: quota_over_library) (simp add: quota_headers_def)
  show ?thesis
    by (simp add: rateLimiter_middleware_def sample_limiter_enabled deny allow over
        set_headers_none user_request_id carries_def)
       (simp add: lib)
qed

lemma checkQuota_denied:
  assumes "checkQuota now req rl = Inr (res, rl')" and "\<not> qr_allowed res"
  shows "qr_message res = Some ''Quota exceeded''
     \<and> (\<exists>q. qr_quota res = Some q \<and> qi_remaining q = 0)"
  using assms
  by (auto simp: checkQuota_def Let_def split: option.splits sum.splits)

text \<open>
  Claim C7, amended. When the quota check denies a request, the middleware ends it with
  status 429; the body carries the error \<open>Quota Exceeded\<close>, the reason \<open>Quota exceeded\<close>
  and the quota record (limit, remaining = 0, reset, window). The middleware sets no
  header on this path: the reply goes out with exactly the headers the global limiter and
  the slow-down had set before the quota check. When the check allows the request, the
  middleware writes \<open>X-RateLimit-Limit\<close>, \<open>X-RateLimit-Remaining\<close> and
  \<open>X-RateLimit-Reset\<close> of the quota record over them and the request goes on.
\<close>

theorem quota_deny_response:
  assumes "rl_enabled (rl_cfg rl)" and "checkQuota now req rl = Inr (res, rl')"
  shows "(\<not> qr_allowed res \<longrightarrow>
            rateLimiter_middleware (Proceeds h1) (Proceeds h2) now req rl =
              (RL_Respond \<lparr> rs_status = 429, rs_headers = set_headers h2 h1,
                            rs_error = ''Quota Exceeded'',
                            rs_message = Some ''Quota exceeded'', rs_quota = qr_quota res,
                            rs_requestId = req_requestId req \<rparr>, rl')
            \<and> (\<exists>q. qr_quota res = Some q \<and> qi_remaining q = 0))
       \<and> (qr_allowed res \<longrightarrow>
            rateLimiter_middleware (Proceeds h1) (Proceeds h2) now req rl =
              (RL_Next (case qr_quota res of
                          None \<Rightarrow> set_headers h2 h1
                        | Some q \<Rightarrow>
                            set_headers
                              [(''X-RateLimit-Limit'', Some (qi_limit q)),
                               (''X-RateLimit-Remaining'', Some (qi_remaining q)),
                               (''X-RateLimit-Reset'', qi_reset q)]
                              (set_headers h2 h1)), rl'))"
  using assms checkQuota_denied [OF assms(2)]
  by (auto simp: rateLimiter_middleware_def quota_headers_def split: option.splits)

theorem quota_deny_response_witness:
  "rl_enabled (rl_cfg (sample_limiter 1 [''user:u1'' \<mapsto> spent_quota]))
   \<and> \<not> qr_allowed (fst (projr (checkQuota 60002 user_request
                                   (sample_limiter 1 [''user:u1'' \<mapsto> spent_quota]))))
   \<and> qr_allowed (fst (projr (checkQuota 60002 user_request (sample_limiter 1 Map.empty))))
   \<and> fst (rateLimiter_middleware (Proceeds library_headers) (Proceeds []) 60002 user_request
            (sample_limiter 1 [''user:u1'' \<mapsto> spent_quota]))
       = RL_Respond \<lparr> rs_status = 429, rs_headers = library_headers,
           rs_error = ''Quota Exceeded'', rs_message = Some ''Quota exceeded'',
           rs_quota = Some \<lparr> qi_limit = 1, qi_remaining = 0, qi_reset = Some 120000,
                               qi_window = 60000 \<rparr>,
           rs_requestId = ''r1'' \<rparr>
   \<and> fst (rateLimiter_middleware (Proceeds library_headers) (Proceeds []) 60002 user_request
            (sample_limiter 1 Map.empty))
       = RL_Next [(''X-RateLimit-Limit'', Some 1), (''X-RateLimit-Remaining'', Some 0),
                  (''X-RateLimit-Reset'', Some 120000)]"
proof -
  let ?full = "sample_limiter 1 [''user:u1'' \<mapsto> spent_quota]"
  let ?new = "sample_limiter 1 Map.empty"
  let ?q = "\<lparr> qi_limit = 1, qi_remaining = 0, qi_reset = Some 120000, qi_window = 60000 \<rparr>"
  have en: "rl_enabled (rl_cfg ?full)" "rl_enabled (rl_cfg ?new)"
    by (simp_all add: sample_limiter_def)
  obtain r1 l1 where c1: "checkQuota 60002 user_request ?full = Inr (r1, l1)"
    by (simp add: quota_eval spent_quota_def)
  obtain r2 l2 where c2: "checkQuota 60002 user_request ?new = Inr (r2, l2)"
    by (simp add: quota_eval)
  have v1: "\<not> qr_allowed r1" "qr_quota r1 = Some ?q"
    using c1 by (auto simp: quota_eval spent_quota_def)
  have v2: "qr_allowed r2" "qr_quota r2 = Some ?q"
    using c2 by (auto simp: quota_eval)
  have over: "set_headers [(''X-RateLimit-Limit'', Some (qi_limit ?q)),
                           (''X-RateLimit-Remaining'', Some (qi_remaining ?q)),
                           (''X-RateLimit-Reset'', qi_reset ?q)] library_headers
      = [(''X-RateLimit-Limit'', Some 1), (''X-RateLimit-Remaining'', Some 0),
         (''X-RateLimit-Reset'', Some 120000)]"
    using quota_over_library [of ?q] by (simp add: quota_headers_def)
  note deny = quota_deny_response [OF en(1) c1, of library_headers "[]"]
  note allow = quota_deny_response [OF en(2) c2, of library_headers "[]"]
  show ?thesis
    using deny allow en v1 v2 c1 c2 over
    by (simp add: user_request_id set_headers_none)
qed

section \<open>Properties of the assembled application\<close>

lemma run_handlers_subseq:
  "run_handlers beh hs req = (tr, r) \<Longrightarrow> subseq (map fst tr) hs"
  by (induction hs arbitrary: req tr r) (auto split: step.splits prod.splits)

lemma dispatch_subseq:
  "dispatch beh matches ls err req = (tr, k) \<Longrightarrow>
   subseq (map fst tr) (concat (map l_handlers ls))"
proof (induction ls arbitrary: err req tr k)
  case Nil
  then show ?case by simp
next
  case (Cons l ls)
  let ?rest = "concat (map l_handlers ls)"
  show ?case
  proof (cases "l_error l \<noteq> err \<or> \<not> matches (l_mount l) req")
    case True
    with Cons.prems have "dispatch beh matches ls err req = (tr, k)" by simp
    from Cons.IH [OF this] show ?thesis by (simp add: list_emb_append2)
  next
    case False
    obtain tr1 r1 where run: "run_handlers beh (l_handlers l) (enter (l_mount l) req) = (tr1, r1)"
      by (cases "run_handlers beh (l_handlers l) (enter (l_mount l) req)")
    then have one: "subseq (map fst tr1) (l_handlers l)" by (rule run_handlers_subseq)
    show ?thesis
    proof (cases r1)
      case Finish
      with False run Cons.prems have "tr = tr1" by simp
      with one have "subseq (map fst tr @ []) (l_handlers l @ ?rest)"
        by (intro list_emb_append_mono) simp_all
      then show ?thesis by simp
    next
      case (Continue req')
      obtain tr2 k2 where d: "dispatch beh matches ls err (leave (l_mount l) req req') = (tr2, k2)"
        by (cases "dispatch beh matches ls err (leave (l_mount l) req req')")
      with False run Continue Cons.prems have "tr = tr1 @ tr2" by simp
      with one Cons.IH [OF d] show ?thesis
        by (simp add: list_emb_append_mono)
    next
      case (Raise req')
      obtain tr2 k2 where d: "dispatch beh matches ls True (leave (l_mount l) req req') = (tr2, k2)"
        by (cases "dispatch beh matches ls True (leave (l_mount l) req req')")
      with False run Raise Cons.prems have "tr = tr1 @ tr2" by simp
      with one Cons.IH [OF d] show ?thesis
        by (simp add: list_emb_append_mono)
    qed
  qed
qed

lemma code_stages:
  "filter pipeline_stage (concat (map l_handlers (ApiGateway_layers cfg))) =
     (if rateLimit_enabled cfg then code_order else tl code_order)"
  by (simp add: ApiGateway_layers_def setupMiddleware_def setupRoutes_def setupErrorHandling_def
      use_def pipeline_stage_def code_order_def)

text \<open>
  Claim C1, amended. For every request, whatever the stages do and whichever layers
  match, the pipeline stages that run are a subsequence of the order of registration:
  Rate Limiter, Security filter, Request Transformer, Auth, Cache lookup, Circuit Breaker
  gate, Router. So each runs at most once, and any two of them that run do so in this
  order.
\<close>

theorem pipeline_order:
  "subseq (stages_run beh matches cfg req) code_order"
proof -
  have "subseq (map fst (handle beh matches cfg req)) (concat (map l_handlers (ApiGateway_layers cfg)))"
    unfolding handle_def by (rule dispatch_subseq) (rule prod.collapse [symmetric])
  then have "subseq (stages_run beh matches cfg req)
               (filter pipeline_stage (concat (map l_handlers (ApiGateway_layers cfg))))"
    unfolding stages_run_def by (rule subseq_filter)
  moreover have "subseq (if rateLimit_enabled cfg then code_order else tl code_order) code_order"
    by (simp add: code_order_def)
  ultimately show ?thesis
    unfolding code_stages by (rule subseq_order.order_trans)
qed

lemmas gateway_eval =
  handle_def ApiGateway_layers_def setupMiddleware_def setupRoutes_def setupErrorHandling_def
  use_def full_config_def sample_beh_def express_matches_def users_request_def enter_def
  leave_def

lemma sample_run:
  "map fst (handle sample_beh express_matches full_config users_request) =
     [Helmet, Cors, Compression, CookieParser, JsonBody, UrlencodedBody, RequestLogging,
      RateLimit, Security, RequestTransform, Authenticate, CacheLookup, CacheInvalidation,
      CircuitBreakerGate, RouterMiddleware]"
  by (simp add: gateway_eval)

text \<open>
  Claim C1, as stated, fails: for a \<open>GET /api/users/42\<close> that every stage lets through to
  the router, the Rate Limiter runs before the Security filter, so the stages do not run
  in the order the specification lists.
\<close>

theorem security_after_rate_limit:
  "stages_run sample_beh express_matches full_config users_request =
     [RateLimit, Security, RequestTransform, Authenticate, CacheLookup, CircuitBreakerGate,
      RouterMiddleware]
   \<and> \<not> subseq (stages_run sample_beh express_matches full_config users_request) spec_order"
  by (simp add: stages_run_def sample_run pipeline_stage_def code_order_def spec_order_def)

lemma req_user_enter: "req_user (enter mt r) = req_user r"
  by (simp add: enter_def split: mount.splits)

lemma req_user_leave: "req_user (leave mt r0 r) = req_user r"
  by (simp add: leave_def split: mount.splits)

lemma run_handlers_no_user:
  assumes "\<forall>s\<in>set hs. keeps_user beh s" and "req_user req = None"
    and "run_handlers beh hs req = (tr, r)"
  shows "(\<forall>(s, x)\<in>set tr. req_user x = None)
     \<and> (\<forall>r'. r = Continue r' \<or> r = Raise r' \<longrightarrow> req_user r' = None)"
  using assms
proof (induction hs arbitrary: req tr r)
  case Nil
  then show ?case by auto
next
  case (Cons h hs)
  from Cons.prems(1) have h: "keeps_user beh h" and hs: "\<forall>s\<in>set hs. keeps_user beh s"
    by simp_all
  show ?case
  proof (cases "beh h req")
    case (Continue req')
    with h Cons.prems(2) have u: "req_user req' = None" by (simp add: keeps_user_def)
    obtain tr' where run: "run_handlers beh hs req' = (tr', r)" and tr: "tr = (h, req) # tr'"
      using Cons.prems(3) Continue by (auto split: prod.splits)
    from Cons.IH [OF hs u run] tr Cons.prems(2) show ?thesis by simp
  next
    case Finish
    with Cons.prems show ?thesis by auto
  next
    case (Raise req')
    with h Cons.prems(2) have u: "req_user req' = None" by (simp add: keeps_user_def)
    with Raise Cons.prems show ?thesis by auto
  qed
qed

lemma dispatch_no_user:
  assumes "\<forall>l\<in>set ls. \<forall>s\<in>set (l_handlers l). keeps_user beh s" and "req_user req = None"
    and "dispatch beh matches ls err req = (tr, k)"
  shows "(\<forall>(s, x)\<in>set tr. req_user x = None)
     \<and> (\<forall>e r. k = Some (e, r) \<longrightarrow> req_user r = None)"
  using assms
proof (induction ls arbitrary: err req tr k)
  case Nil
  then show ?case by auto
next
  case (Cons l ls)
  from Cons.prems(1) have l: "\<forall>s\<in>set (l_handlers l). keeps_user beh s"
    and ls: "\<forall>l\<in>set ls. \<forall>s\<in>set (l_handlers l). keeps_user beh s" by simp_all
  show ?case
  proof (cases "l_error l \<noteq> err \<or> \<not> matches (l_mount l) req")
    case True
    with Cons.prems have "dispatch beh matches ls err req = (tr, k)" by simp
    from Cons.IH [OF ls Cons.prems(2) this] show ?thesis .
  next
    case False
    obtain tr1 r1 where run: "run_handlers beh (l_handlers l) (enter (l_mount l) req) = (tr1, r1)"
      by (cases "run_handlers beh (l_handlers l) (enter (l_mount l) req)")
    have "req_user (enter (l_mount l) req) = None"
      using Cons.prems(2) by (simp add: req_user_enter)
    from run_handlers_no_user [OF l this run]
    have one: "\<forall>(s, x)\<in>set tr1. req_user x = None"
      and out: "\<And>r'. r1 = Continue r' \<or> r1 = Raise r' \<Longrightarrow> req_user r' = None"
      by blast+
    show ?thesis
    proof (cases r1)
      case Finish
      with False run Cons.prems(3) have "tr = tr1" "k = None" by simp_all
      with one show ?thesis by simp
    next
      case (Continue req')
      obtain tr2 k2 where d: "dispatch beh matches ls err (leave (l_mount l) req req') = (tr2, k2)"
        by (cases "dispatch beh matches ls err (leave (l_mount l) req req')")
      have "req_user (leave (l_mount l) req req') = None"
        using out Continue by (simp add: req_user_leave)
      note two = Cons.IH [OF ls this d]
      from False run Continue Cons.prems(3) d have "tr = tr1 @ tr2" "k = k2" by simp_all
      with one two show ?thesis by (simp add: ball_Un)
    next
      case (Raise req')
      obtain tr2 k2 where d: "dispatch beh matches ls True (leave (l_mount l) req req') = (tr2, k2)"
        by (cases "dispatch beh matches ls True (leave (l_mount l) req req')")
      have "req_user (leave (l_mount l) req req') = None"
        using out Raise by (simp add: req_user_leave)
      note two = Cons.IH [OF ls this d]
      from False run Raise Cons.prems(3) d have "tr = tr1 @ tr2" "k = k2" by simp_all
      with one two show ?thesis by (simp add: ball_Un)
    qed
  qed
qed

lemma dispatch_append:
  "dispatch beh matches (ls1 @ ls2) err req =
     (case dispatch beh matches ls1 err req of
        (tr, None) \<Rightarrow> (tr, None)
      | (tr, Some (e, r)) \<Rightarrow>
          (let (tr', k) = dispatch beh matches ls2 e r in (tr @ tr', k)))"
  by (induction ls1 arbitrary: err req)
     (auto split: prod.splits option.splits step.splits)

lemma dispatch_stages:
  assumes "dispatch beh matches ls err req = (tr, k)" and "(s, x) \<in> set tr"
  shows "s \<in> set (concat (map l_handlers ls))"
proof -
  from assms(1) have "subseq (map fst tr) (concat (map l_handlers ls))"
    by (rule dispatch_subseq)
  moreover have "s \<in> set (map fst tr)" using assms(2) by force
  ultimately obtain y where "y \<in> set (concat (map l_handlers ls))" and "s = y"
    by (rule list_emb_set)
  then show ?thesis by simp
qed

lemma checkQuota_no_user:
  "req_user x = None \<Longrightarrow>
   checkQuota now x rl = Inr (\<lparr> qr_allowed = True, qr_quota = None, qr_message = None \<rparr>, rl)"
  by (simp add: checkQuota_def)

lemma early_layers:
  "\<forall>l\<in>set [use Helmet, use Cors, use Compression, use CookieParser, use JsonBody,
              use UrlencodedBody, use RequestLogging].
     \<forall>s\<in>set (l_handlers l). s \<in> set early_stages"
  by (simp add: use_def early_stages_def)

lemma later_stages:
  "RateLimit \<notin> set (concat (map l_handlers
      ([use Security, use RequestTransform] @ setupRoutes cfg @ setupErrorHandling)))"
  by (simp add: use_def setupRoutes_def setupErrorHandling_def)

text \<open>
  Claim C10. A request without a principal makes \<open>checkQuota\<close> return allowed with no
  quota record and leaves the buckets as they are, so the middleware never answers with
  a quota reply and adds no header of its own: only the global limiter (and the
  slow-down) decide. In the assembled
  application this holds for every request the rate limiter is given: a request comes in
  without a principal, the stages registered ahead of the rate limiter do not set
  \<open>req.user\<close>, and authentication is registered behind it.
\<close>

theorem quota_check_without_principal:
  assumes "req_user req = None"
    and "\<forall>s\<in>set early_stages. \<forall>r r'.
           beh s r = Continue r' \<or> beh s r = Raise r' \<longrightarrow> req_user r' = req_user r"
    and "(RateLimit, x) \<in> set (handle beh matches cfg req)"
  shows "req_user x = None
     \<and> checkQuota now x rl
          = Inr (\<lparr> qr_allowed = True, qr_quota = None, qr_message = None \<rparr>, rl)
     \<and> (\<forall>g sd. snd (rateLimiter_middleware g sd now x rl) = rl
            \<and> fst (rateLimiter_middleware g sd now x rl)
                \<in> {RL_Next [], RL_Next (ext_headers g sd), RL_Answered})"
proof -
  let ?early = "[use Helmet, use Cors, use Compression, use CookieParser, use JsonBody,
                 use UrlencodedBody, use RequestLogging]"
  let ?rl = "if rateLimit_enabled cfg then [use RateLimit] else []"
  let ?late = "[use Security, use RequestTransform] @ setupRoutes cfg @ setupErrorHandling"
  have layers: "ApiGateway_layers cfg = ?early @ ?rl @ ?late"
    by (simp add: ApiGateway_layers_def setupMiddleware_def)
  have keep: "\<forall>l\<in>set ?early. \<forall>s\<in>set (l_handlers l). keeps_user beh s"
    using assms(2) early_layers unfolding keeps_user_def by blast
  obtain tr1 k1 where d1: "dispatch beh matches ?early False req = (tr1, k1)"
    by (cases "dispatch beh matches ?early False req")
  note inv = dispatch_no_user [OF keep assms(1) d1]
  have no1: "(RateLimit, x) \<notin> set tr1"
    using dispatch_stages [OF d1, of RateLimit x] by (auto simp: use_def)
  have user: "req_user x = None"
  proof (cases k1)
    case None
    with d1 have "handle beh matches cfg req = tr1"
      unfolding handle_def layers dispatch_append [of _ _ ?early] by simp
    with assms(3) no1 show ?thesis by simp
  next
    case (Some p)
    obtain e r where p: "p = (e, r)" by (cases p)
    with Some inv have r: "req_user r = None" by simp
    obtain tr2 k2 where d2: "dispatch beh matches ?rl e r = (tr2, k2)"
      by (cases "dispatch beh matches ?rl e r")
    have in2: "\<forall>(s, y)\<in>set tr2. req_user y = None"
      using d2 r by (auto simp: use_def enter_def split: if_splits step.splits)
    show ?thesis
    proof (cases k2)
      case None
      with d1 d2 Some p have "handle beh matches cfg req = tr1 @ tr2"
        unfolding handle_def layers dispatch_append [of _ _ ?early] dispatch_append [of _ _ ?rl]
        by simp
      with assms(3) no1 in2 show ?thesis by auto
    next
      case (Some p2)
      obtain e2 r2 where p2: "p2 = (e2, r2)" by (cases p2)
      obtain tr3 k3 where d3: "dispatch beh matches ?late e2 r2 = (tr3, k3)"
        by (cases "dispatch beh matches ?late e2 r2")
      have no3: "(RateLimit, x) \<notin> set tr3"
        using dispatch_stages [OF d3, of RateLimit x] later_stages [of cfg] by blast
      from d1 d2 d3 \<open>k1 = Some p\<close> p Some p2
      have "handle beh matches cfg req = tr1 @ tr2 @ tr3"
        unfolding handle_def layers dispatch_append [of _ _ ?early] dispatch_append [of _ _ ?rl]
        by simp
      with assms(3) no1 no3 in2 show ?thesis by auto
    qed
  qed
  then have q: "checkQuota now x rl
      = Inr (\<lparr> qr_allowed = True, qr_quota = None, qr_message = None \<rparr>, rl)"
    by (rule checkQuota_no_user)
  have "snd (rateLimiter_middleware g sd now x rl) = rl
      \<and> fst (rateLimiter_middleware g sd now x rl)
          \<in> {RL_Next [], RL_Next (ext_headers g sd), RL_Answered}" for g sd
    by (simp add: rateLimiter_middleware_def ext_headers_def q split: ext_result.splits)
  with user q show ?thesis by blast
qed

lemma sample_beh_early:
  "\<forall>s\<in>set early_stages. \<forall>r r'.
      sample_beh s r = Continue r' \<or> sample_beh s r = Raise r' \<longrightarrow> req_user r' = req_user r"
  by (auto simp: early_stages_def sample_beh_def)

lemma sample_rate_limit_runs:
  "(RateLimit, users_request) \<in> set (handle sample_beh express_matches full_config users_request)"
  by (simp add: gateway_eval)

lemma sample_cache_sees_user:
  "(CacheLookup, users_request\<lparr>req_path := ''/users/42'', req_user := Some sample_principal\<rparr>)
     \<in> set (handle sample_beh express_matches full_config users_request)"
  by (simp add: gateway_eval)

theorem quota_check_without_principal_witness:
  "req_user users_request = None
   \<and> (RateLimit, users_request) \<in> set (handle sample_beh express_matches full_config users_request)
   \<and> (CacheLookup, users_request\<lparr>req_path := ''/users/42'', req_user := Some sample_principal\<rparr>)
        \<in> set (handle sample_beh express_matches full_config users_request)
   \<and> checkQuota 60001 users_request (sample_limiter 1 Map.empty)
        = Inr (\<lparr> qr_allowed = True, qr_quota = None, qr_message = None \<rparr>,
               sample_limiter 1 Map.empty)
   \<and> rateLimiter_middleware (Proceeds library_headers) (Proceeds []) 60001 users_request
        (sample_limiter 1 Map.empty)
        = (RL_Next library_headers, sample_limiter 1 Map.empty)"
proof -
  have h1: "req_user users_request = None"
    by (simp add: users_request_def)
  note inst = quota_check_without_principal [OF h1 sample_beh_early sample_rate_limit_runs,
      of 60001 "sample_limiter 1 Map.empty"]
  then have "rateLimiter_middleware (Proceeds library_headers) (Proceeds []) 60001 users_request
        (sample_limiter 1 Map.empty)
        = (RL_Next library_headers, sample_limiter 1 Map.empty)"
    by (simp add: rateLimiter_middleware_def sample_limiter_enabled set_headers_none)
  with inst h1 sample_rate_limit_runs sample_cache_sees_user show ?thesis by blast
qed

section \<open>Properties of the response cache\<close>

lemma key_ab:
  "generateCacheKey default_cache_config (list_request [(''a'', ''1''), (''b'', ''2'')])
     = ''gateway:R0VUOi9hcGkvdXNlcnM/YT0xJmI9Mg==''"
  by code_simp

lemma key_ba:
  "generateCacheKey default_cache_config (list_request [(''b'', ''2''), (''a'', ''1'')])
     = ''gateway:R0VUOi9hcGkvdXNlcnM/Yj0yJmE9MQ==''"
  by code_simp

text \<open>
  Claim C5 at a concrete input. The cache middleware takes its key from
  \<open>generateCacheKey\<close>, which serialises \<open>req.query\<close> in the order of its properties and
  encodes the result in base64: the queries \<open>?a=1&b=2\<close> and \<open>?b=2&a=1\<close> of the same
  \<open>GET /api/users\<close>, with the same headers, get two different keys.
\<close>

theorem permuted_query_changes_key:
  "mset [(''a'', ''1''), (''b'', ''2'')] = mset [(''b'', ''2''), (''a'', ''1'')]
   \<and> generateCacheKey default_cache_config (list_request [(''a'', ''1''), (''b'', ''2'')])
       = ''gateway:R0VUOi9hcGkvdXNlcnM/YT0xJmI9Mg==''
   \<and> generateCacheKey default_cache_config (list_request [(''b'', ''2''), (''a'', ''1'')])
       = ''gateway:R0VUOi9hcGkvdXNlcnM/Yj0yJmE9MQ==''
   \<and> generateCacheKey default_cache_config (list_request [(''a'', ''1''), (''b'', ''2'')])
       \<noteq> generateCacheKey default_cache_config (list_request [(''b'', ''2''), (''a'', ''1'')])"
  by (simp add: key_ab key_ba)

lemma no_store_seen_by_utils: "\<not> isResponseCacheable (res_headers no_store_response)"
  by (simp add: isResponseCacheable_def no_store_response_def header_or_empty_def)

lemma key_plain:
  "generateCacheKey default_cache_config (list_request []) = ''gateway:R0VUOi9hcGkvdXNlcnM=''"
  by code_simp

lemma sample_cacheable: "isCacheable default_cache_config (list_request [])"
  by (simp add: isCacheable_def default_cache_config_def list_request_def header_set_def)

lemma sample_lookup:
  "cache_middleware 1000 (list_request []) empty_cache =
     (Wrapped ''gateway:R0VUOi9hcGkvdXNlcnM='',
      empty_cache\<lparr>cacheStats := (cacheStats empty_cache)\<lparr>cs_misses := 1\<rparr>\<rparr>)"
proof -
  have "cm_config empty_cache = default_cache_config" "cache_enabled default_cache_config"
    "\<not> isConnected empty_cache" "memoryTTL empty_cache = Map.empty"
    "memoryCache empty_cache = Map.empty" "cs_misses (cacheStats empty_cache) = 0"
    by (simp_all add: empty_cache_def default_cache_config_def)
  then show ?thesis
    by (simp add: cache_middleware_def sample_cacheable key_plain cache_get_def getFromMemory_def)
qed

text \<open>
  Claim C6 at a concrete input. A \<open>GET /api/users\<close> without sensitive headers misses the
  cache; the response has status 200 and \<open>Cache-Control: no-store\<close>, which
  \<open>CacheUtils.isResponseCacheable\<close> reports as not cacheable. The entry is written all
  the same.
\<close>

theorem no_store_response_is_cached:
  "req_method (list_request []) \<in> set (cacheableMethods default_cache_config)
   \<and> res_statusCode no_store_response \<in> set (cacheableStatusCodes default_cache_config)
   \<and> \<not> list_ex (header_set (req_headers (list_request []))) [''authorization'', ''cookie'', ''x-api-key'']
   \<and> res_headers no_store_response ''cache-control'' = Some ''no-store''
   \<and> \<not> isResponseCacheable (res_headers no_store_response)
   \<and> stored empty_cache ''gateway:R0VUOi9hcGkvdXNlcnM='' = None
   \<and> stored (respond 1000 1050 (list_request []) no_store_response ''[]'' empty_cache)
        ''gateway:R0VUOi9hcGkvdXNlcnM=''
       = Some \<lparr> cd_status = 200,
                 cd_headers = [(''content-type'', ''application/json''),
                               (''cache-control'', ''no-store'')],
                 cd_body = ''[]'', cd_timestamp = 1050, cd_path = ''/api/users'',
                 cd_method = ''GET'' \<rparr>
   \<and> cs_sets (cacheStats (respond 1000 1050 (list_request []) no_store_response ''[]'' empty_cache)) = 1"
proof -
  have pre: "req_method (list_request []) \<in> set (cacheableMethods default_cache_config)"
    "res_statusCode no_store_response \<in> set (cacheableStatusCodes default_cache_config)"
    "\<not> list_ex (header_set (req_headers (list_request []))) [''authorization'', ''cookie'', ''x-api-key'']"
    "res_headers no_store_response ''cache-control'' = Some ''no-store''"
    "stored empty_cache ''gateway:R0VUOi9hcGkvdXNlcnM='' = None"
    by (simp_all add: list_request_def default_cache_config_def no_store_response_def
        header_set_def stored_def empty_cache_def)
  have post: "stored (respond 1000 1050 (list_request []) no_store_response ''[]'' empty_cache)
        ''gateway:R0VUOi9hcGkvdXNlcnM=''
       = Some \<lparr> cd_status = 200,
                 cd_headers = [(''content-type'', ''application/json''),
                               (''cache-control'', ''no-store'')],
                 cd_body = ''[]'', cd_timestamp = 1050, cd_path = ''/api/users'',
                 cd_method = ''GET'' \<rparr>"
    "cs_sets (cacheStats (respond 1000 1050 (list_request []) no_store_response ''[]'' empty_cache)) = 1"
    unfolding respond_def sample_lookup
    by (simp_all add: cacheResponse_def cache_set_def setInMemory_def
        stored_def getCacheStrategy_def getResponseHeaders_def startsWith_def
        js_or_def empty_cache_def default_cache_config_def
        no_store_response_def list_request_def)
  from pre post no_store_seen_by_utils show ?thesis by simp
qed

lemma cache_get_keeps:
  "cacheStats (snd (cache_get now k cm)) = cacheStats cm
   \<and> cm_config (snd (cache_get now k cm)) = cm_config cm"
  by (simp add: cache_get_def getFromMemory_def split: option.splits)

lemma cacheResponse_sets:
  "cs_sets (cacheStats (cacheResponse fin req res body k cm)) =
     cs_sets (cacheStats cm)
       + (if res_statusCode res \<in> set (cacheableStatusCodes (cm_config cm)) then 1 else 0)"
  by (simp add: cacheResponse_def cache_set_def setInMemory_def Let_def)

lemma cache_middleware_cases:
  "cache_middleware now req cm =
     (if \<not> cache_enabled (cm_config cm) \<or> \<not> isCacheable (cm_config cm) req then (Pass, cm)
      else case fst (cache_get now (generateCacheKey (cm_config cm) req) cm) of
        Some d \<Rightarrow> (Served d (generateCacheKey (cm_config cm) req),
                   (snd (cache_get now (generateCacheKey (cm_config cm) req) cm))
                     \<lparr>cacheStats := (cacheStats cm)\<lparr>cs_hits := cs_hits (cacheStats cm) + 1\<rparr>\<rparr>)
      | None \<Rightarrow> (Wrapped (generateCacheKey (cm_config cm) req),
                 (snd (cache_get now (generateCacheKey (cm_config cm) req) cm))
                   \<lparr>cacheStats := (cacheStats cm)\<lparr>cs_misses := cs_misses (cacheStats cm) + 1\<rparr>\<rparr>))"
  using cache_get_keeps [of now "generateCacheKey (cm_config cm) req" cm]
  by (cases "cache_get now (generateCacheKey (cm_config cm) req) cm")
     (simp add: cache_middleware_def split: option.splits)

text \<open>
  When the cache manager writes an entry for a request: the cache is enabled, the request
  is cacheable (method and sensitive headers), the lookup missed and the status of the
  response is cacheable. The headers of the response play no part.
\<close>

lemma cache_write_iff:
  "cs_sets (cacheStats (respond now fin req res body cm)) = cs_sets (cacheStats cm) + 1
   \<longleftrightarrow> cache_enabled (cm_config cm) \<and> isCacheable (cm_config cm) req
       \<and> fst (cache_get now (generateCacheKey (cm_config cm) req) cm) = None
       \<and> res_statusCode res \<in> set (cacheableStatusCodes (cm_config cm))"
  using cache_get_keeps [of now "generateCacheKey (cm_config cm) req" cm]
  by (auto simp: respond_def cache_middleware_cases cacheResponse_sets split: option.splits)

end
